theory Spec2Isabelle
  imports Complex_Main "HOL-Library.Word"
begin

section \<open>Strings as Python uses them\<close>

text \<open>
  Python \<open>str\<close> values are modelled as \<open>string\<close>, lists of 8-bit characters read as the
  code points 0 to 255 (Latin-1). \<open>lower_chr\<close>, \<open>upper_chr\<close> and \<open>is_space\<close> are
  \<open>str.lower\<close>, \<open>str.upper\<close> and \<open>str.isspace\<close> on these code points: the capital of the
  sharp s (223) is \<open>SS\<close>, and the white space is the ASCII white space with the
  separators 28 to 31, the next-line character 133 and the no-break space 160. Two small
  letters, 181 and 255, have their capital outside the range; \<open>upper_chr\<close> leaves them in
  place, which no test of the code can tell from the capital, since upper-cased text is
  only searched for, or compared with, ASCII literals. Python floats are modelled as
  exact rationals: the sums \<open>0.2 + 0.4 + ...\<close> of the scorer are computed without
  rounding.
\<close>

type_synonym byte = "8 word"
type_synonym bytes = "byte list"

definition lower_chr :: "char \<Rightarrow> char" where
  "lower_chr c =
     (let n = (of_char c :: nat)
      in if (65 \<le> n \<and> n \<le> 90) \<or> (192 \<le> n \<and> n \<le> 222 \<and> n \<noteq> 215) then char_of (n + 32) else c)"

definition upper_chr :: "char \<Rightarrow> string" where
  "upper_chr c =
     (let n = (of_char c :: nat)
      in if n = 223 then ''SS''
         else if (97 \<le> n \<and> n \<le> 122) \<or> (224 \<le> n \<and> n \<le> 254 \<and> n \<noteq> 247) then [char_of (n - 32)]
         else [c])"

definition lower :: "string \<Rightarrow> string" where
  "lower s = map lower_chr s"

definition upper :: "string \<Rightarrow> string" where
  "upper s = concat (map upper_chr s)"

definition is_space :: "char \<Rightarrow> bool" where
  "is_space c = ((of_char c :: nat) \<in> {9, 10, 11, 12, 13, 28, 29, 30, 31, 32, 133, 160})"

definition is_digit :: "char \<Rightarrow> bool" where
  "is_digit c = (let n = (of_char c :: nat) in 48 \<le> n \<and> n \<le> 57)"

text \<open>\<open>starts_with p s\<close>: \<open>s.startswith(p)\<close>; \<open>isin a b\<close>: the substring test \<open>a in b\<close>.\<close>

fun starts_with :: "string \<Rightarrow> string \<Rightarrow> bool" where
  "starts_with [] s = True"
| "starts_with (p # ps) [] = False"
| "starts_with (p # ps) (c # cs) = (p = c \<and> starts_with ps cs)"

fun isin :: "string \<Rightarrow> string \<Rightarrow> bool" where
  "isin a [] = (a = [])"
| "isin a (c # cs) = (starts_with a (c # cs) \<or> isin a cs)"

text \<open>\<open>split_on sep s\<close>: \<open>s.split(sep)\<close> for a one-character separator; the result always
  has at least one element.\<close>

fun split_on :: "char \<Rightarrow> string \<Rightarrow> string list" where
  "split_on sep [] = [[]]"
| "split_on sep (c # cs) =
     (if c = sep then [] # split_on sep cs
      else (case split_on sep cs of
              [] \<Rightarrow> [[c]]
            | w # ws \<Rightarrow> (c # w) # ws))"

text \<open>\<open>split_first sep s\<close>: \<open>s.split(sep, 1)\<close>, a list of one or two elements.\<close>

fun split_first :: "char \<Rightarrow> string \<Rightarrow> string list" where
  "split_first sep [] = [[]]"
| "split_first sep (c # cs) =
     (if c = sep then [[], cs]
      else (case split_first sep cs of
              [] \<Rightarrow> [[c]]
            | w # ws \<Rightarrow> (c # w) # ws))"

definition strip :: "string \<Rightarrow> string" where
  "strip s = rev (dropWhile is_space (rev (dropWhile is_space s)))"

text \<open>\<open>split_ws s\<close>: \<open>s.split()\<close>, the maximal runs of non-whitespace characters.\<close>

fun split_ws_aux :: "string \<Rightarrow> string \<Rightarrow> string list" where
  "split_ws_aux cur [] = (if cur = [] then [] else [rev cur])"
| "split_ws_aux cur (c # cs) =
     (if is_space c then (if cur = [] then split_ws_aux [] cs else rev cur # split_ws_aux [] cs)
      else split_ws_aux (c # cur) cs)"

definition split_ws :: "string \<Rightarrow> string list" where
  "split_ws s = split_ws_aux [] s"

text \<open>\<open>rfind c s\<close>: the greatest index at which \<open>c\<close> occurs (\<open>None\<close> for Python's -1).\<close>

fun rfind :: "char \<Rightarrow> string \<Rightarrow> nat option" where
  "rfind c [] = None"
| "rfind c (x # xs) =
     (case rfind c xs of
        Some i \<Rightarrow> Some (Suc i)
      | None \<Rightarrow> (if x = c then Some 0 else None))"

section \<open>Paths (pathlib)\<close>

text \<open>
  A \<open>Path\<close> is its anchor (drive and root, \<open>''C:/''\<close>, or \<open>''''\<close> for a relative path)
  and the list of its components. Comparison is plain equality (the case-insensitive
  comparison of Windows paths is not modelled). \<open>str(p)\<close> followed by \<open>Path(...)\<close> gives
  \<open>p\<close> back, so where the journal stores \<open>str(file)\<close> the model stores the path.
\<close>

record path =
  anchor :: string
  parts :: "string list"

definition name :: "path \<Rightarrow> string" where
  "name p = (case parts p of [] \<Rightarrow> [] | _ \<Rightarrow> last (parts p))"

text \<open>\<open>suffix\<close> and \<open>stem\<close> split the name at its last dot, unless that dot is the first or
  the last character of the name.\<close>

definition suffix_of :: "string \<Rightarrow> string" where
  "suffix_of n = (case rfind (CHR ''.'') n of
                    Some i \<Rightarrow> (if 0 < i \<and> i < length n - 1 then drop i n else [])
                  | None \<Rightarrow> [])"

definition stem_of :: "string \<Rightarrow> string" where
  "stem_of n = (case rfind (CHR ''.'') n of
                  Some i \<Rightarrow> (if 0 < i \<and> i < length n - 1 then take i n else n)
                | None \<Rightarrow> n)"

definition suffix :: "path \<Rightarrow> string" where
  "suffix p = suffix_of (name p)"

definition stem :: "path \<Rightarrow> string" where
  "stem p = stem_of (name p)"

definition parent :: "path \<Rightarrow> path" where
  "parent p = p\<lparr>parts := butlast (parts p)\<rparr>"

text \<open>\<open>joinpath d r\<close>: \<open>d / r\<close> for a relative \<open>r\<close>; an anchored \<open>r\<close> replaces \<open>d\<close>.\<close>

definition joinpath :: "path \<Rightarrow> path \<Rightarrow> path" where
  "joinpath d r = (if anchor r = [] then d\<lparr>parts := parts d @ parts r\<rparr> else r)"

definition child :: "path \<Rightarrow> string \<Rightarrow> path" where
  "child d n = d\<lparr>parts := parts d @ [n]\<rparr>"

fun is_prefix :: "'a list \<Rightarrow> 'a list \<Rightarrow> bool" where
  "is_prefix [] ys = True"
| "is_prefix (x # xs) [] = False"
| "is_prefix (x # xs) (y # ys) = (x = y \<and> is_prefix xs ys)"

text \<open>\<open>relative_to p d\<close>: \<open>p.relative_to(d)\<close>, \<open>None\<close> where Python raises \<open>ValueError\<close>.\<close>

definition relative_to :: "path \<Rightarrow> path \<Rightarrow> path option" where
  "relative_to p d =
     (if anchor p = anchor d \<and> is_prefix (parts d) (parts p)
      then Some \<lparr>anchor = [], parts = drop (length (parts d)) (parts p)\<rparr>
      else None)"

text \<open>\<open>under d p\<close>: \<open>p\<close> lies strictly below the directory \<open>d\<close>.\<close>

definition under :: "path \<Rightarrow> path \<Rightarrow> bool" where
  "under d p = (anchor p = anchor d \<and> is_prefix (parts d) (parts p) \<and> length (parts d) < length (parts p))"

section \<open>The file system\<close>

text \<open>
  The file system holds regular files only, as an association list from paths to nodes in
  the order in which a directory walk lists them; a directory exists when a file lies
  below it, and \<open>stat\<close> and \<open>open\<close> are modelled on regular files. Of the operating
  system's failures, those are modelled that the code catches by name, a missing file and
  a denied permission to read or to move a file (one flag each), and the two by which
  \<open>mkdir\<close> and \<open>shutil.move\<close> refuse a destination. \<open>stat\<close> succeeds on every file that
  the file system holds, so \<open>Path.is_file\<close> and \<open>Path.exists\<close>, which call it, always
  return: a file whose \<open>stat\<close> is refused, on which they raise, is outside the model.
  \<open>resolve\<close> is \<open>Path.resolve\<close> (symbolic links, relative paths).
\<close>

datatype os_error = PermissionError | FileNotFoundError | FileExistsError | ShutilError

record node =
  content :: bytes
  mtime :: rat
  atime :: rat
  read_denied :: bool
  move_denied :: bool

record filesystem =
  entries :: "(path \<times> node) list"
  resolve :: "path \<Rightarrow> path"

record stat_result =
  st_size :: nat
  st_mtime :: rat
  st_atime :: rat

definition lookup :: "filesystem \<Rightarrow> path \<Rightarrow> node option" where
  "lookup fs p = map_of (entries fs) p"

definition is_file :: "filesystem \<Rightarrow> path \<Rightarrow> bool" where
  "is_file fs p = (lookup fs p \<noteq> None)"

definition is_dir :: "filesystem \<Rightarrow> path \<Rightarrow> bool" where
  "is_dir fs d = list_ex (\<lambda>(p, n). under d p) (entries fs)"

definition exists :: "filesystem \<Rightarrow> path \<Rightarrow> bool" where
  "exists fs p = (is_file fs p \<or> is_dir fs p)"

text \<open>\<open>rglob fs d\<close>: the files among \<open>d.rglob('*')\<close>.\<close>

definition rglob :: "filesystem \<Rightarrow> path \<Rightarrow> path list" where
  "rglob fs d = filter (under d) (map fst (entries fs))"

definition stat :: "filesystem \<Rightarrow> path \<Rightarrow> os_error + stat_result" where
  "stat fs p =
     (case lookup fs p of
        None \<Rightarrow> Inl FileNotFoundError
      | Some n \<Rightarrow> Inr \<lparr>st_size = length (content n), st_mtime = mtime n, st_atime = atime n\<rparr>)"

text \<open>\<open>read_file fs p\<close>: \<open>open(p, 'rb')\<close> followed by reading the whole file.\<close>

definition read_file :: "filesystem \<Rightarrow> path \<Rightarrow> os_error + bytes" where
  "read_file fs p =
     (case lookup fs p of
        None \<Rightarrow> Inl FileNotFoundError
      | Some n \<Rightarrow> if read_denied n then Inl PermissionError else Inr (content n))"

section \<open>Configuration (config.py)\<close>

text \<open>The directories that \<open>Config\<close> computes from the environment are fields of the
  configuration; an unset variable gives \<open>Path('')\<close>.\<close>

record config =
  appdata :: path
  localappdata :: path
  temp :: path
  tmp :: path
  home :: path

definition empty_path :: path where
  "empty_path = \<lparr>anchor = [], parts = []\<rparr>"

definition c_drive :: "string list \<Rightarrow> path" where
  "c_drive ps = \<lparr>anchor = ''C:/'', parts = ps\<rparr>"

definition WHITELISTED_DIRS :: "config \<Rightarrow> path list" where
  "WHITELISTED_DIRS cfg =
     [c_drive [''Windows''],
      c_drive [''Program Files (x86)''],
      c_drive [''Program Files''],
      appdata cfg,
      child (localappdata cfg) ''Packages'',
      c_drive [''3DP''],
      c_drive [''AMD''],
      c_drive [''Autodesk''],
      c_drive [''PerfLogs'']]"

definition EXTENSIONS_TEMP :: "string list" where
  "EXTENSIONS_TEMP = [''.tmp'', ''.temp'', ''.log'', ''.bak'', ''.old'', ''.cache'', ''.dmp'']"

definition EXTENSIONS_COMPRESSED :: "string list" where
  "EXTENSIONS_COMPRESSED = [''.zip'', ''.rar'', ''.7z'', ''.tar'', ''.gz'', ''.bz2'', ''.xz'']"

definition DAYS_OLD :: rat where
  "DAYS_OLD = 90"

definition MIN_DUP_FILE_SIZE_MB :: rat where
  "MIN_DUP_FILE_SIZE_MB = 50"

text \<open>\<open>ACCURACY_DUP\<close> is the double that the literal \<open>0.6\<close> denotes.\<close>

definition ACCURACY_DUP :: rat where
  "ACCURACY_DUP = 5404319552844595 / 9007199254740992"

definition TARGET_DIRS :: "config \<Rightarrow> path list" where
  "TARGET_DIRS cfg =
     [temp cfg, tmp cfg, child (home cfg) ''Downloads'', child (home cfg) ''Documents'',
      child (home cfg) ''Desktop'']"

definition is_in_whitelist :: "config \<Rightarrow> filesystem \<Rightarrow> path \<Rightarrow> bool" where
  "is_in_whitelist cfg fs p =
     list_ex (\<lambda>protected_dir. relative_to (resolve fs p) (resolve fs protected_dir) \<noteq> None)
       (WHITELISTED_DIRS cfg)"

section \<open>Fingerprints and the similarity score (analysis.py)\<close>

text \<open>
  \<open>md5\<close> stands for \<open>hashlib.md5(...).hexdigest()\<close> and is a parameter of everything
  that hashes. \<open>full_hash\<close> feeds the file to the digest in chunks of 4096 bytes, which
  digests the concatenation of the chunks, that is, the content.
\<close>

definition fast_hash :: "(bytes \<Rightarrow> string) \<Rightarrow> filesystem \<Rightarrow> path \<Rightarrow> os_error + string" where
  "fast_hash md5 fs file =
     (case read_file fs file of
        Inl e \<Rightarrow> Inl e
      | Inr data \<Rightarrow> Inr (md5 (take 8192 data)))"

type_synonym hash_cache = "path \<rightharpoonup> string"

definition full_hash ::
  "(bytes \<Rightarrow> string) \<Rightarrow> filesystem \<Rightarrow> hash_cache \<Rightarrow> path \<Rightarrow> (os_error + string) \<times> hash_cache" where
  "full_hash md5 fs cache file =
     (case cache file of
        Some h \<Rightarrow> (Inr h, cache)
      | None \<Rightarrow>
          (case read_file fs file of
             Inl e \<Rightarrow> (Inl e, cache)
           | Inr data \<Rightarrow> (let result = md5 data in (Inr result, cache(file \<mapsto> result)))))"

text \<open>The two alternatives of the pattern \<open>\(\d+\)|\s+\d+$\<close>, each giving the length of
  its match at the start of the string. \<open>$\<close> matches at the end of the string and before
  a final newline.\<close>

definition match_paren :: "string \<Rightarrow> nat option" where
  "match_paren s =
     (case s of
        [] \<Rightarrow> None
      | c # rest \<Rightarrow>
          (let ds = takeWhile is_digit rest in
           if c = CHR ''('' \<and> ds \<noteq> [] \<and> starts_with '')'' (dropWhile is_digit rest)
           then Some (length ds + 2) else None))"

definition match_trailing :: "string \<Rightarrow> nat option" where
  "match_trailing s =
     (let ws = takeWhile is_space s;
          rest = dropWhile is_space s;
          ds = takeWhile is_digit rest;
          tl = dropWhile is_digit rest
      in if ws \<noteq> [] \<and> ds \<noteq> [] \<and> (tl = [] \<or> tl = [CHR 0x0A])
         then Some (length ws + length ds) else None)"

definition match_at :: "string \<Rightarrow> nat option" where
  "match_at s = (case match_paren s of Some l \<Rightarrow> Some l | None \<Rightarrow> match_trailing s)"

text \<open>\<open>re_sub_clean 0 s\<close>: \<open>re.sub(r'\(\d+\)|\s+\d+$', '', s)\<close>; the first argument counts
  the characters of the current match still to be dropped.\<close>

fun re_sub_clean :: "nat \<Rightarrow> string \<Rightarrow> string" where
  "re_sub_clean k [] = []"
| "re_sub_clean (Suc k) (c # cs) = re_sub_clean k cs"
| "re_sub_clean 0 (c # cs) =
     (case match_at (c # cs) of
        Some (Suc l) \<Rightarrow> re_sub_clean l cs
      | _ \<Rightarrow> c # re_sub_clean 0 cs)"

definition name_similarity :: "string \<Rightarrow> string \<Rightarrow> rat" where
  "name_similarity s1 s2 =
     (if s1 = [] \<or> s2 = [] then 0
      else
        let words1 = remdups (split_ws (re_sub_clean 0 s1));
            words2 = remdups (split_ws (re_sub_clean 0 s2))
        in if words1 = [] \<or> words2 = [] then 0
           else
             let intersection = filter (\<lambda>w. w \<in> set words2) words1;
                 union = remdups (words1 @ words2)
             in of_nat (length intersection) / of_nat (length union))"

definition score_extension :: "path \<Rightarrow> path \<Rightarrow> rat" where
  "score_extension file1 file2 = (if suffix file1 = suffix file2 then 2 / 10 else 0)"

definition score_name :: "path \<Rightarrow> path \<Rightarrow> rat" where
  "score_name file1 file2 =
     (let name1 = lower (stem file1); name2 = lower (stem file2)
      in if name1 = name2 then 4 / 10
         else if isin name1 name2 \<or> isin name2 name1 then 3 / 10
         else if name_similarity name1 name2 \<ge> 7 / 10 then 2 / 10
         else 0)"

definition score_date :: "filesystem \<Rightarrow> path \<Rightarrow> path \<Rightarrow> rat" where
  "score_date fs file1 file2 =
     (case (stat fs file1, stat fs file2) of
        (Inr s1, Inr s2) \<Rightarrow>
          (let dif_days = \<bar>st_mtime s1 - st_mtime s2\<bar> / (24 * 3600)
           in if dif_days < 1 then 2 / 10
              else if dif_days < 7 then 1 / 10
              else 0)
      | _ \<Rightarrow> 0)"

definition score_fast_hash :: "(bytes \<Rightarrow> string) \<Rightarrow> filesystem \<Rightarrow> path \<Rightarrow> path \<Rightarrow> rat" where
  "score_fast_hash md5 fs file1 file2 =
     (case (fast_hash md5 fs file1, fast_hash md5 fs file2) of
        (Inr h1, Inr h2) \<Rightarrow> (if h1 = h2 then 2 / 10 else 0)
      | _ \<Rightarrow> 0)"

text \<open>The body of the inner loop of \<open>_calculate_accuracy_fuzzy\<close>: the score of one pair.\<close>

definition pair_score :: "(bytes \<Rightarrow> string) \<Rightarrow> filesystem \<Rightarrow> path \<Rightarrow> path \<Rightarrow> rat" where
  "pair_score md5 fs file1 file2 =
     score_extension file1 file2 + score_name file1 file2 + score_date fs file1 file2
       + score_fast_hash md5 fs file1 file2"

text \<open>The inner loop over \<open>files[i+1:]\<close> and the outer loop over \<open>files\<close>, carrying
  \<open>(total_acc, comparations)\<close>.\<close>

fun inner_loop ::
  "(bytes \<Rightarrow> string) \<Rightarrow> filesystem \<Rightarrow> path \<Rightarrow> path list \<Rightarrow> rat \<times> nat \<Rightarrow> rat \<times> nat" where
  "inner_loop md5 fs file1 [] acc = acc"
| "inner_loop md5 fs file1 (file2 # rest) (total_acc, comparations) =
     inner_loop md5 fs file1 rest (total_acc + pair_score md5 fs file1 file2, comparations + 1)"

fun outer_loop ::
  "(bytes \<Rightarrow> string) \<Rightarrow> filesystem \<Rightarrow> path list \<Rightarrow> rat \<times> nat \<Rightarrow> rat \<times> nat" where
  "outer_loop md5 fs [] acc = acc"
| "outer_loop md5 fs (file1 # rest) acc = outer_loop md5 fs rest (inner_loop md5 fs file1 rest acc)"

definition calculate_accuracy_fuzzy :: "(bytes \<Rightarrow> string) \<Rightarrow> filesystem \<Rightarrow> path list \<Rightarrow> rat" where
  "calculate_accuracy_fuzzy md5 fs files =
     (if length files < 2 then 0
      else
        (case outer_loop md5 fs files (0, 0) of
           (total_acc, comparations) \<Rightarrow>
             if comparations > 0 then total_acc / of_nat comparations else 0))"

section \<open>The duplicate pipeline (FilesAnalyzer.find\_dup)\<close>

text \<open>
  A \<open>defaultdict(list)\<close> keeps its keys in insertion order; it is an association list,
  and \<open>dd_append d k v\<close> is \<open>d[k].append(v)\<close>.
\<close>

fun dd_append :: "('k \<times> 'v list) list \<Rightarrow> 'k \<Rightarrow> 'v \<Rightarrow> ('k \<times> 'v list) list" where
  "dd_append [] k v = [(k, [v])]"
| "dd_append ((k', vs) # rest) k v =
     (if k' = k then (k', vs @ [v]) # rest else (k', vs) # dd_append rest k v)"

text \<open>The records that \<open>find_dup\<close> emits are Python dictionaries: association lists from
  key strings to values, indexed with \<open>map_of\<close>.\<close>

datatype gval = VFiles "path list" | VNum rat | VStr string

type_synonym group = "(string \<times> gval) list"

definition confirmed_group :: "path list \<Rightarrow> rat \<Rightarrow> group" where
  "confirmed_group list_files length_mb =
     [(''files'', VFiles list_files), (''length_mb'', VNum length_mb),
      (''accuracy'', VNum 1), (''type'', VStr ''confirmed'')]"

definition suspect_group :: "path list \<Rightarrow> rat \<Rightarrow> rat \<Rightarrow> group" where
  "suspect_group candidates length_mb accuracy =
     [(''files'', VFiles candidates), (''length_mb'', VNum length_mb),
      (''accuracy'', VNum accuracy), (''type'', VStr ''suspect'')]"

text \<open>Phase 1: the loop over one directory's \<open>rglob\<close>, then the loop over the directories.\<close>

fun size_files ::
  "config \<Rightarrow> filesystem \<Rightarrow> path list \<Rightarrow> (nat \<times> path list) list \<Rightarrow> (nat \<times> path list) list" where
  "size_files cfg fs [] by_size = by_size"
| "size_files cfg fs (file # rest) by_size =
     (if \<not> is_file fs file then size_files cfg fs rest by_size
      else if is_in_whitelist cfg fs file then size_files cfg fs rest by_size
      else (case stat fs file of
              Inl e \<Rightarrow> size_files cfg fs rest by_size
            | Inr s \<Rightarrow>
                (if st_size s > 0 then size_files cfg fs rest (dd_append by_size (st_size s) file)
                 else size_files cfg fs rest by_size)))"

fun size_dirs ::
  "config \<Rightarrow> filesystem \<Rightarrow> path list \<Rightarrow> (nat \<times> path list) list \<Rightarrow> (nat \<times> path list) list" where
  "size_dirs cfg fs [] by_size = by_size"
| "size_dirs cfg fs (dir_base # rest) by_size =
     (if \<not> exists fs dir_base then size_dirs cfg fs rest by_size
      else size_dirs cfg fs rest (size_files cfg fs (rglob fs dir_base) by_size))"

text \<open>The loops that hash the files of a bucket; a file that cannot be read is skipped.\<close>

fun full_hash_files ::
  "(bytes \<Rightarrow> string) \<Rightarrow> filesystem \<Rightarrow> path list \<Rightarrow> hash_cache \<times> (string \<times> path list) list
     \<Rightarrow> hash_cache \<times> (string \<times> path list) list" where
  "full_hash_files md5 fs [] acc = acc"
| "full_hash_files md5 fs (file # rest) (cache, hash_map) =
     (case full_hash md5 fs cache file of
        (Inl e, cache') \<Rightarrow> full_hash_files md5 fs rest (cache', hash_map)
      | (Inr h, cache') \<Rightarrow> full_hash_files md5 fs rest (cache', dd_append hash_map h file))"

fun fast_hash_files ::
  "(bytes \<Rightarrow> string) \<Rightarrow> filesystem \<Rightarrow> path list \<Rightarrow> (string \<times> path list) list
     \<Rightarrow> (string \<times> path list) list" where
  "fast_hash_files md5 fs [] fast_hash_map = fast_hash_map"
| "fast_hash_files md5 fs (file # rest) fast_hash_map =
     (case fast_hash md5 fs file of
        Inl e \<Rightarrow> fast_hash_files md5 fs rest fast_hash_map
      | Inr h \<Rightarrow> fast_hash_files md5 fs rest (dd_append fast_hash_map h file))"

text \<open>The groups appended for the digests that two or more files share.\<close>

definition confirmed_groups :: "(string \<times> path list) list \<Rightarrow> rat \<Rightarrow> group list" where
  "confirmed_groups hash_map length_mb =
     map (\<lambda>(h, list_files). confirmed_group list_files length_mb)
       (filter (\<lambda>(h, list_files). length list_files > 1) hash_map)"

record dup_state =
  hash_cache :: hash_cache
  dup_confirmed :: "group list"
  dup_suspect :: "group list"

text \<open>
  The score that \<open>_calculate_accuracy_fuzzy\<close> returns for a cluster is a double, computed
  with the rounding of floating-point addition and division, and \<open>find_dup\<close> compares it
  with the double \<open>ACCURACY_DUP\<close>. The loops of phase 2 take the scorer as the parameter
  \<open>score\<close>, so that what is proved of them holds of the scores that the doubles give as
  it holds of the exact scores of \<open>calculate_accuracy_fuzzy\<close>. The size in megabytes is
  the quotient by \<open>2 ^ 20\<close>, which a double holds exactly for every size below \<open>2 ^ 53\<close>.
\<close>

text \<open>The loop over the fast-hash clusters of a bucket of large files.\<close>

fun candidates_loop ::
  "(bytes \<Rightarrow> string) \<Rightarrow> (filesystem \<Rightarrow> path list \<Rightarrow> rat) \<Rightarrow> filesystem \<Rightarrow> rat
     \<Rightarrow> (string \<times> path list) list \<Rightarrow> dup_state \<Rightarrow> dup_state" where
  "candidates_loop md5 score fs length_mb [] st = st"
| "candidates_loop md5 score fs length_mb ((fh, candidates) # rest) st =
     (if length candidates < 2 then candidates_loop md5 score fs length_mb rest st
      else
        let accuracy = score fs candidates in
        if accuracy \<ge> ACCURACY_DUP then
          (case full_hash_files md5 fs candidates (hash_cache st, []) of
             (cache', full_hash_map) \<Rightarrow>
               candidates_loop md5 score fs length_mb rest
                 (st\<lparr>hash_cache := cache',
                     dup_confirmed := dup_confirmed st @ confirmed_groups full_hash_map length_mb\<rparr>))
        else
          candidates_loop md5 score fs length_mb rest
            (st\<lparr>dup_suspect := dup_suspect st @ [suspect_group candidates length_mb accuracy]\<rparr>))"

text \<open>Phase 2: the body of the loop over the size buckets, and the loop.\<close>

definition size_bucket ::
  "(bytes \<Rightarrow> string) \<Rightarrow> (filesystem \<Rightarrow> path list \<Rightarrow> rat) \<Rightarrow> filesystem \<Rightarrow> nat \<times> path list
     \<Rightarrow> dup_state \<Rightarrow> dup_state" where
  "size_bucket md5 score fs bucket st =
     (case bucket of (len, files) \<Rightarrow>
        if length files < 2 then st
        else
          let length_mb = of_nat len / (1024 * 1024) in
          if length_mb \<le> MIN_DUP_FILE_SIZE_MB then
            (case full_hash_files md5 fs files (hash_cache st, []) of
               (cache', hash_map) \<Rightarrow>
                 st\<lparr>hash_cache := cache',
                    dup_confirmed := dup_confirmed st @ confirmed_groups hash_map length_mb\<rparr>)
          else candidates_loop md5 score fs length_mb (fast_hash_files md5 fs files []) st)"

fun size_buckets ::
  "(bytes \<Rightarrow> string) \<Rightarrow> (filesystem \<Rightarrow> path list \<Rightarrow> rat) \<Rightarrow> filesystem
     \<Rightarrow> (nat \<times> path list) list \<Rightarrow> dup_state \<Rightarrow> dup_state" where
  "size_buckets md5 score fs [] st = st"
| "size_buckets md5 score fs (bucket # rest) st =
     size_buckets md5 score fs rest (size_bucket md5 score fs bucket st)"

text \<open>\<open>find_dup\<close> returns the dictionary \<open>{'confirmed': ..., 'suspect': ...}\<close>, here the two
  group lists of the final state, beside the analyzer's updated digest cache.
  \<open>find_dup_scored\<close> is the function for a given scorer, \<open>find_dup\<close> the function with the
  exact scores.\<close>

definition find_dup_scored ::
  "(bytes \<Rightarrow> string) \<Rightarrow> (filesystem \<Rightarrow> path list \<Rightarrow> rat) \<Rightarrow> config \<Rightarrow> filesystem \<Rightarrow> hash_cache
     \<Rightarrow> path list \<Rightarrow> dup_state" where
  "find_dup_scored md5 score cfg fs cache directories =
     size_buckets md5 score fs (size_dirs cfg fs directories [])
       \<lparr>hash_cache = cache, dup_confirmed = [], dup_suspect = []\<rparr>"

definition find_dup ::
  "(bytes \<Rightarrow> string) \<Rightarrow> config \<Rightarrow> filesystem \<Rightarrow> hash_cache \<Rightarrow> path list \<Rightarrow> dup_state" where
  "find_dup md5 cfg fs cache directories =
     find_dup_scored md5 (calculate_accuracy_fuzzy md5) cfg fs cache directories"

text \<open>\<open>unused_files\<close>: files whose last access and modification are both older than
  \<open>DAYS_OLD\<close> days at time \<open>now\<close>. \<open>int(days_unused)\<close> truncates.\<close>

record unused_item =
  u_file :: path
  u_days_unused :: int
  u_size_mb :: rat

fun unused_in ::
  "config \<Rightarrow> filesystem \<Rightarrow> rat \<Rightarrow> path list \<Rightarrow> unused_item list \<Rightarrow> unused_item list" where
  "unused_in cfg fs now [] unused = unused"
| "unused_in cfg fs now (file # rest) unused =
     (if \<not> is_file fs file then unused_in cfg fs now rest unused
      else if is_in_whitelist cfg fs file then unused_in cfg fs now rest unused
      else (case stat fs file of
              Inl e \<Rightarrow> unused_in cfg fs now rest unused
            | Inr s \<Rightarrow>
                (let cutoff = now - DAYS_OLD * 24 * 3600;
                     last_access = max (st_atime s) (st_mtime s)
                 in if last_access < cutoff then
                      unused_in cfg fs now rest
                        (unused @ [\<lparr>u_file = file,
                                    u_days_unused = \<lfloor>(now - last_access) / (24 * 3600)\<rfloor>,
                                    u_size_mb = of_nat (st_size s) / (1024 * 1024)\<rparr>])
                    else unused_in cfg fs now rest unused)))"

fun unused_dirs ::
  "config \<Rightarrow> filesystem \<Rightarrow> rat \<Rightarrow> path list \<Rightarrow> unused_item list \<Rightarrow> unused_item list" where
  "unused_dirs cfg fs now [] unused = unused"
| "unused_dirs cfg fs now (dir_base # rest) unused =
     (if \<not> exists fs dir_base then unused_dirs cfg fs now rest unused
      else unused_dirs cfg fs now rest (unused_in cfg fs now (rglob fs dir_base) unused))"

definition unused_files :: "config \<Rightarrow> filesystem \<Rightarrow> rat \<Rightarrow> path list \<Rightarrow> unused_item list" where
  "unused_files cfg fs now directories = unused_dirs cfg fs now directories []"

section \<open>Moving and removing files (shutil, pathlib)\<close>

fun join_with :: "string \<Rightarrow> string list \<Rightarrow> string" where
  "join_with sep [] = []"
| "join_with sep [w] = w"
| "join_with sep (w # ws) = w @ sep @ join_with sep ws"

text \<open>\<open>str(p)\<close>, written with forward slashes.\<close>

definition path_str :: "path \<Rightarrow> string" where
  "path_str p = anchor p @ join_with ''/'' (parts p)"

text \<open>\<open>str(e)\<close> of a caught exception.\<close>

fun error_text :: "os_error \<Rightarrow> string" where
  "error_text PermissionError = ''[Errno 13] Permission denied''"
| "error_text FileNotFoundError = ''[Errno 2] No such file or directory''"
| "error_text FileExistsError = ''[Errno 17] File exists''"
| "error_text ShutilError = ''Destination path already exists''"

definition remove_entry :: "path \<Rightarrow> (path \<times> node) list \<Rightarrow> (path \<times> node) list" where
  "remove_entry p es = filter (\<lambda>(q, n). q \<noteq> p) es"

text \<open>\<open>ancestors p\<close>: \<open>p\<close> and the directories above it, below the anchor.
  \<open>mkdir(parents=True, exist_ok=True)\<close> fails when one of them is a regular file;
  directories are implicit, so a successful call leaves the file system as it is.\<close>

definition ancestors :: "path \<Rightarrow> path list" where
  "ancestors p = map (\<lambda>k. p\<lparr>parts := take k (parts p)\<rparr>) [1..<Suc (length (parts p))]"

definition mkdir_parents :: "filesystem \<Rightarrow> path \<Rightarrow> os_error + unit" where
  "mkdir_parents fs d = (if list_ex (is_file fs) (ancestors d) then Inl FileExistsError else Inr ())"

definition rebase :: "path \<Rightarrow> path \<Rightarrow> path \<Rightarrow> path" where
  "rebase src dst p = \<lparr>anchor = anchor dst, parts = parts dst @ drop (length (parts src)) (parts p)\<rparr>"

text \<open>
  \<open>shutil.move(src, dst)\<close>: a destination that is an existing directory receives the
  source under its own name, and that name must be free; otherwise the source is renamed
  (or copied and removed) onto the destination, replacing a file that is there. A source
  that is a directory moves with everything below it.
\<close>

definition shutil_move :: "filesystem \<Rightarrow> path \<Rightarrow> path \<Rightarrow> os_error + filesystem" where
  "shutil_move fs src dst =
     (let real_dst = (if is_dir fs dst then child dst (name src) else dst) in
      if is_dir fs dst \<and> exists fs real_dst then Inl ShutilError
      else
        (case lookup fs src of
           Some n \<Rightarrow>
             if move_denied n then Inl PermissionError
             else Inr (fs\<lparr>entries := remove_entry real_dst (remove_entry src (entries fs)) @ [(real_dst, n)]\<rparr>)
         | None \<Rightarrow>
             if is_dir fs src then
               (if is_file fs real_dst then Inl FileExistsError
                else if list_ex (\<lambda>(p, n). under src p \<and> move_denied n) (entries fs) then Inl PermissionError
                else Inr (fs\<lparr>entries :=
                            map (\<lambda>(p, n). if under src p then (rebase src real_dst p, n) else (p, n))
                              (entries fs)\<rparr>))
             else Inl FileNotFoundError))"

text \<open>\<open>Path.unlink\<close>; on a directory it is refused.\<close>

definition unlink :: "filesystem \<Rightarrow> path \<Rightarrow> os_error + filesystem" where
  "unlink fs p =
     (case lookup fs p of
        Some n \<Rightarrow>
          if move_denied n then Inl PermissionError
          else Inr (fs\<lparr>entries := remove_entry p (entries fs)\<rparr>)
      | None \<Rightarrow> if is_dir fs p then Inl PermissionError else Inl FileNotFoundError)"

text \<open>\<open>shutil.rmtree\<close>: removes the files below the directory in order and stops at the
  first one it may not remove, leaving that one and the later ones.\<close>

fun rmtree_entries :: "path \<Rightarrow> (path \<times> node) list \<Rightarrow> os_error option \<times> (path \<times> node) list" where
  "rmtree_entries d [] = (None, [])"
| "rmtree_entries d ((p, n) # es) =
     (if under d p then
        (if move_denied n then (Some PermissionError, (p, n) # es) else rmtree_entries d es)
      else (case rmtree_entries d es of (e, es') \<Rightarrow> (e, (p, n) # es')))"

definition rmtree :: "filesystem \<Rightarrow> path \<Rightarrow> os_error option \<times> filesystem" where
  "rmtree fs d =
     (if \<not> is_dir fs d then (Some FileNotFoundError, fs)
      else (case rmtree_entries d (entries fs) of (e, es') \<Rightarrow> (e, fs\<lparr>entries := es'\<rparr>)))"

section \<open>The journal (logger.py)\<close>

record details =
  d_reason :: string
  d_size_mb :: "rat option"
  d_pid :: "nat option"

text \<open>An action record; the keys \<open>quarantine\<close>, \<open>status\<close> and \<open>error\<close> are present only when
  \<open>add_action\<close> sets them. The timestamp is the clock reading.\<close>

record action =
  a_type :: string
  a_file :: path
  a_details :: details
  a_timestamp :: rat
  a_quarantine :: "path option"
  a_status :: "string option"
  a_error :: "string option"

record logger =
  logs_dir :: path
  quarantine_dir :: path
  actions :: "action list"

definition new_logger :: logger where
  "new_logger =
     \<lparr>logs_dir = \<lparr>anchor = [], parts = [''data'', ''logs'']\<rparr>,
      quarantine_dir = \<lparr>anchor = [], parts = [''data'', ''logs'', ''quarantine'']\<rparr>,
      actions = []\<rparr>"

definition add_action ::
  "logger \<Rightarrow> filesystem \<Rightarrow> rat \<Rightarrow> string \<Rightarrow> path \<Rightarrow> details \<Rightarrow> logger \<times> filesystem" where
  "add_action lg fs now action_type file dets =
     (let action = \<lparr>a_type = action_type, a_file = file, a_details = dets, a_timestamp = now,
                     a_quarantine = None, a_status = None, a_error = None\<rparr>
      in if action_type = ''delete'' then
           (let rel_path = \<lparr>anchor = [], parts = parts file\<rparr>;
                destination = joinpath (quarantine_dir lg) rel_path
            in case mkdir_parents fs (parent destination) of
                 Inl e \<Rightarrow>
                   (lg\<lparr>actions := actions lg @
                        [action\<lparr>a_status := Some ''error'', a_error := Some (error_text e)\<rparr>]\<rparr>, fs)
               | Inr u \<Rightarrow>
                   (case shutil_move fs file destination of
                      Inl e \<Rightarrow>
                        (lg\<lparr>actions := actions lg @
                             [action\<lparr>a_status := Some ''error'', a_error := Some (error_text e)\<rparr>]\<rparr>, fs)
                    | Inr fs' \<Rightarrow>
                        (lg\<lparr>actions := actions lg @
                             [action\<lparr>a_quarantine := Some destination,
                                     a_status := Some ''moved to quarantine''\<rparr>]\<rparr>, fs')))
         else (lg\<lparr>actions := actions lg @ [action]\<rparr>, fs))"

section \<open>The executor (executor.py)\<close>

record executor =
  dry_run :: bool
  files_deleted :: nat
  space_freed_mb :: rat
  processes_killed :: nat
  errors :: "string list"

definition new_executor :: executor where
  "new_executor = \<lparr>dry_run = False, files_deleted = 0, space_freed_mb = 0, processes_killed = 0, errors = []\<rparr>"

text \<open>\<open>round(x, 2)\<close>.\<close>

definition round2 :: "rat \<Rightarrow> rat" where
  "round2 x = of_int (round (x * 100)) / 100"

text \<open>\<open>Executor.delete_file\<close>. The only statement of its \<open>try\<close> block that can raise is
  \<open>file.stat()\<close>: \<open>add_action\<close> catches the failures of the move itself.\<close>

definition delete_file ::
  "executor \<Rightarrow> logger \<Rightarrow> filesystem \<Rightarrow> rat \<Rightarrow> path \<Rightarrow> string \<Rightarrow> bool \<times> executor \<times> logger \<times> filesystem" where
  "delete_file ex lg fs now file reason =
     (if dry_run ex then (True, ex, lg, fs)
      else if \<not> exists fs file then
        (False, ex\<lparr>errors := errors ex @ [''File does not exist: '' @ path_str file]\<rparr>, lg, fs)
      else
        (case stat fs file of
           Inl e \<Rightarrow>
             (False, ex\<lparr>errors := errors ex @ [''Error deleting '' @ name file @ '': '' @ error_text e]\<rparr>,
              lg, fs)
         | Inr s \<Rightarrow>
             (let size_mb = of_nat (st_size s) / (1024 * 1024) in
              case add_action lg fs now ''delete'' file
                     \<lparr>d_reason = reason, d_size_mb = Some (round2 size_mb), d_pid = None\<rparr> of
                (lg', fs') \<Rightarrow>
                  (True,
                   ex\<lparr>files_deleted := files_deleted ex + 1,
                      space_freed_mb := space_freed_mb ex + size_mb\<rparr>,
                   lg', fs'))))"

fun delete_batch ::
  "executor \<Rightarrow> logger \<Rightarrow> filesystem \<Rightarrow> rat \<Rightarrow> path list \<Rightarrow> string \<Rightarrow> executor \<times> logger \<times> filesystem" where
  "delete_batch ex lg fs now [] reason = (ex, lg, fs)"
| "delete_batch ex lg fs now (file # rest) reason =
     (case delete_file ex lg fs now file reason of
        (ok, ex', lg', fs') \<Rightarrow> delete_batch ex' lg' fs' now rest reason)"

section \<open>The recovery manager (recuperator.py)\<close>

record recoverable =
  r_index :: nat
  r_original_file :: path
  r_quarantine :: path
  r_size_mb :: rat
  r_reason :: string

fun list_recoverable_from :: "nat \<Rightarrow> action list \<Rightarrow> recoverable list" where
  "list_recoverable_from i [] = []"
| "list_recoverable_from i (action # rest) =
     (case a_quarantine action of
        Some q \<Rightarrow>
          (if a_type action = ''delete'' then
             \<lparr>r_index = i, r_original_file = a_file action, r_quarantine = q,
              r_size_mb = (case d_size_mb (a_details action) of Some m \<Rightarrow> m | None \<Rightarrow> 0),
              r_reason = d_reason (a_details action)\<rparr> # list_recoverable_from (Suc i) rest
           else list_recoverable_from (Suc i) rest)
      | None \<Rightarrow> list_recoverable_from (Suc i) rest)"

definition list_recoverable_actions :: "action list \<Rightarrow> recoverable list" where
  "list_recoverable_actions log_actions = list_recoverable_from 0 log_actions"

text \<open>The operations of the recovery manager return the messages they print about what
  they did, beside the new file system; \<open>recover_file\<close> also returns its result. The
  listing of the entries and the prompts of \<open>interactive_menu\<close> are left out.\<close>

definition recover_file :: "filesystem \<Rightarrow> recoverable \<Rightarrow> bool \<times> string list \<times> filesystem" where
  "recover_file fs item =
     (let quarantine = r_quarantine item; original = r_original_file item in
      if \<not> exists fs quarantine then
        (False, [''[!] File not found in quarantine: '' @ path_str quarantine], fs)
      else
        (case mkdir_parents fs (parent original) of
           Inl e \<Rightarrow> (False, [''[!] Error recovering '' @ name original @ '': '' @ error_text e], fs)
         | Inr u \<Rightarrow>
             (case shutil_move fs quarantine original of
                Inl e \<Rightarrow> (False, [''[!] Error recovering '' @ name original @ '': '' @ error_text e], fs)
              | Inr fs' \<Rightarrow> (True, [''[+] Recovered: '' @ name original], fs'))))"

definition recuperator_delete_file :: "filesystem \<Rightarrow> recoverable \<Rightarrow> string list \<times> filesystem" where
  "recuperator_delete_file fs item =
     (let quarantine = r_quarantine item in
      if exists fs quarantine then
        (case unlink fs quarantine of
           Inl e \<Rightarrow> ([''[!] Error deleting '' @ name quarantine @ '': '' @ error_text e], fs)
         | Inr fs' \<Rightarrow> ([], fs'))
      else ([], fs))"

fun first_quarantine :: "action list \<Rightarrow> path option" where
  "first_quarantine [] = None"
| "first_quarantine (action # rest) =
     (case a_quarantine action of Some q \<Rightarrow> Some q | None \<Rightarrow> first_quarantine rest)"

definition delete_permanently :: "action list \<Rightarrow> filesystem \<Rightarrow> string \<Rightarrow> string list \<times> filesystem" where
  "delete_permanently log_actions fs confirm =
     (if upper confirm = ''YES'' then
        (case first_quarantine log_actions of
           Some quarantine_path \<Rightarrow>
             (let quarantine = parent quarantine_path in
              case rmtree fs quarantine of
                (None, fs') \<Rightarrow> ([''[+] Quarantine deleted: '' @ path_str quarantine], fs')
              | (Some e, fs') \<Rightarrow> ([''[!] Error deleting quarantine: '' @ error_text e], fs'))
         | None \<Rightarrow> ([''[!] No quarantine found in log''], fs))
      else ([''[*] Operation cancelled.''], fs))"

text \<open>\<open>int(x.strip())\<close>: an optional sign and decimal digits, with single underscores
  allowed between digits (\<open>None\<close>: ValueError).\<close>

definition digit_val :: "char \<Rightarrow> int" where
  "digit_val c = int (of_char c) - 48"

fun digits_ok :: "string \<Rightarrow> bool" where
  "digits_ok [] = False"
| "digits_ok [c] = is_digit c"
| "digits_ok (c # d # rest) =
     (is_digit c \<and> (if d = CHR ''_'' then digits_ok rest else digits_ok (d # rest)))"

definition parse_int :: "string \<Rightarrow> int option" where
  "parse_int x =
     (let t = strip x;
          neg = starts_with ''-'' t;
          ds = (if starts_with ''-'' t \<or> starts_with ''+'' t then tl t else t)
      in if digits_ok ds
         then Some ((if neg then -1 else 1)
                      * foldl (\<lambda>a c. 10 * a + digit_val c) 0 (filter (\<lambda>c. c \<noteq> CHR ''_'') ds))
         else None)"

fun parse_indices :: "string list \<Rightarrow> int list option" where
  "parse_indices [] = Some []"
| "parse_indices (x # xs) =
     (case parse_int x of
        None \<Rightarrow> None
      | Some i \<Rightarrow> (case parse_indices xs of None \<Rightarrow> None | Some is \<Rightarrow> Some (i # is)))"

text \<open>\<open>str(n)\<close> for a natural number.\<close>

function str_nat :: "nat \<Rightarrow> string" where
  "str_nat n =
     (if n < 10 then [char_of (48 + n)]
      else str_nat (n div 10) @ [char_of (48 + n mod 10)])"
  by pat_completeness auto
termination
  by (relation "measure id") auto

text \<open>The two loops that end \<open>interactive_menu\<close>: recover the selected entries, purge the
  others.\<close>

fun recover_selected ::
  "recoverable list \<Rightarrow> int list \<Rightarrow> string list \<times> filesystem \<Rightarrow> string list \<times> filesystem" where
  "recover_selected recoverable [] acc = acc"
| "recover_selected recoverable (idx # rest) (out, fs) =
     (case find (\<lambda>x. int (r_index x) = idx) recoverable of
        Some item \<Rightarrow>
          (case recover_file fs item of
             (ok, out', fs') \<Rightarrow> recover_selected recoverable rest (out @ out', fs'))
      | None \<Rightarrow> recover_selected recoverable rest (out, fs))"

fun delete_unselected :: "recoverable list \<Rightarrow> string list \<times> filesystem \<Rightarrow> string list \<times> filesystem" where
  "delete_unselected [] acc = acc"
| "delete_unselected (item # rest) (out, fs) =
     (case recuperator_delete_file fs item of
        (out', fs') \<Rightarrow> delete_unselected rest (out @ out', fs'))"

definition interactive_menu ::
  "action list \<Rightarrow> filesystem \<Rightarrow> string \<Rightarrow> string \<Rightarrow> string list \<times> filesystem" where
  "interactive_menu log_actions fs choice_input confirm =
     (let recoverable = list_recoverable_actions log_actions in
      if recoverable = [] then ([''[!] No files in quarantine to recover.''], fs)
      else
        let choice = upper (strip choice_input) in
        if choice = ''N'' then delete_permanently log_actions fs confirm
        else
          (case (if choice = ''A'' then Some (map (\<lambda>item. int (r_index item)) recoverable)
                 else parse_indices (split_on (CHR '','') choice)) of
             None \<Rightarrow> ([''[!] Invalid input.''], fs)
           | Some indices \<Rightarrow>
               (let not_recovered = filter (\<lambda>x. int (r_index x) \<notin> set indices) recoverable in
                case recover_selected recoverable indices ([], fs) of
                  (out, fs') \<Rightarrow>
                    if not_recovered \<noteq> [] then
                      delete_unselected not_recovered
                        (out @ [''[*] Permanently deleting '' @ str_nat (length not_recovered)
                                  @ '' unselected file(s)...''], fs')
                    else (out, fs'))))"

section \<open>The arbitration policy (classificator.py)\<close>

text \<open>
  The text that \<open>consult\<close> returns for the prompt is the argument \<open>response\<close> of each
  operation (the empty string when the service fails). An operation returns its pair
  \<open>(decision, justification)\<close> beside the extended \<open>decisions_history\<close>, or the exception
  that escapes it.
\<close>

datatype py_error = KeyError string | IndexError | TypeError | ValueError | OSErr os_error

datatype decision =
  SuspectDuplicate "path list" rat bool string
| OldFile path int bool string string
| ProcessDecision string nat bool string string

record process =
  p_name :: string
  p_pid :: nat
  p_cpu :: rat
  p_ram :: rat
  p_path :: "string option"

text \<open>\<open>after_colon line\<close>: \<open>line.split(':', 1)[1]\<close>; \<open>first_word s\<close>: \<open>s.split()[0]\<close>.\<close>

definition after_colon :: "string \<Rightarrow> py_error + string" where
  "after_colon line =
     (case split_first (CHR '':'') line of
        a # b # rest \<Rightarrow> Inr b
      | _ \<Rightarrow> Inl IndexError)"

definition first_word :: "string \<Rightarrow> py_error + string" where
  "first_word s = (case split_ws s of [] \<Rightarrow> Inl IndexError | w # ws \<Rightarrow> Inr w)"

text \<open>The loop of \<open>analyze_suspect_duplicate\<close>: the first line that mentions
  \<open>JUSTIFICATION:\<close> gives the justification, and the loop stops there.\<close>

fun duplicate_lines :: "string list \<Rightarrow> py_error + string" where
  "duplicate_lines [] = Inr []"
| "duplicate_lines (line # rest) =
     (if isin ''JUSTIFICATION:'' (upper line) then
        (case after_colon line of Inl e \<Rightarrow> Inl e | Inr v \<Rightarrow> Inr (strip v))
      else duplicate_lines rest)"

definition analyze_suspect_duplicate ::
  "decision list \<Rightarrow> path list \<Rightarrow> rat \<Rightarrow> string \<Rightarrow> py_error + ((bool \<times> string) \<times> decision list)" where
  "analyze_suspect_duplicate history files confidence response =
     (let should_delete = isin ''DECISION: YES'' (upper response) in
      case duplicate_lines (split_on (CHR 0x0A) response) of
        Inl e \<Rightarrow> Inl e
      | Inr found \<Rightarrow>
          (let justification = (if found = [] then take 200 response else found) in
           Inr ((should_delete, justification),
                history @ [SuspectDuplicate files confidence should_delete justification])))"

text \<open>The loop of \<open>analyze_old_file\<close>, carrying \<open>(justification, risk)\<close>: every line is
  examined, a later field replaces an earlier one, and a line that mentions
  \<open>JUSTIFICATION:\<close> is never read as a risk line.\<close>

fun old_file_lines :: "string list \<Rightarrow> string \<times> string \<Rightarrow> py_error + (string \<times> string)" where
  "old_file_lines [] acc = Inr acc"
| "old_file_lines (line # rest) (justification, risk) =
     (if isin ''JUSTIFICATION:'' (upper line) then
        (case after_colon line of
           Inl e \<Rightarrow> Inl e
         | Inr v \<Rightarrow> old_file_lines rest (strip v, risk))
      else if isin ''RISK:'' (upper line) then
        (case after_colon line of
           Inl e \<Rightarrow> Inl e
         | Inr v \<Rightarrow>
             (case first_word (strip v) of
                Inl e \<Rightarrow> Inl e
              | Inr w \<Rightarrow> old_file_lines rest (justification, w)))
      else old_file_lines rest (justification, risk))"

definition analyze_old_file ::
  "filesystem \<Rightarrow> decision list \<Rightarrow> path \<Rightarrow> int \<Rightarrow> string
     \<Rightarrow> py_error + ((bool \<times> string) \<times> decision list)" where
  "analyze_old_file fs history file days_unused response =
     (case stat fs file of
        Inl e \<Rightarrow> Inr ((False, ''Error accessing file''), history)
      | Inr s \<Rightarrow>
          (case old_file_lines (split_on (CHR 0x0A) response) ([], ''MEDIUM'') of
             Inl e \<Rightarrow> Inl e
           | Inr (parsed, risk) \<Rightarrow>
               (let high = isin ''HIGH'' (upper risk);
                    should_delete = (if high then False else isin ''DECISION: YES'' (upper response));
                    justification =
                      (if high then parsed @ '' [HIGH RISK - requires manual confirmation]''
                       else parsed)
                in Inr ((should_delete, justification),
                        history @ [OldFile file days_unused should_delete risk justification]))))"

text \<open>The loop of \<open>analyze_process\<close>, carrying \<open>(justification, safety)\<close>.\<close>

fun process_lines :: "string list \<Rightarrow> string \<times> string \<Rightarrow> py_error + (string \<times> string)" where
  "process_lines [] acc = Inr acc"
| "process_lines (line # rest) (justification, safety) =
     (if isin ''JUSTIFICATION:'' (upper line) then
        (case after_colon line of
           Inl e \<Rightarrow> Inl e
         | Inr v \<Rightarrow> process_lines rest (strip v, safety))
      else if isin ''SAFETY:'' (upper line) then
        (case after_colon line of
           Inl e \<Rightarrow> Inl e
         | Inr v \<Rightarrow>
             (case first_word (strip v) of
                Inl e \<Rightarrow> Inl e
              | Inr w \<Rightarrow> process_lines rest (justification, w)))
      else process_lines rest (justification, safety))"

definition analyze_process ::
  "decision list \<Rightarrow> process \<Rightarrow> string \<Rightarrow> py_error + ((bool \<times> string) \<times> decision list)" where
  "analyze_process history proc response =
     (case process_lines (split_on (CHR 0x0A) response) ([], ''CAUTION'') of
        Inl e \<Rightarrow> Inl e
      | Inr (parsed, safety) \<Rightarrow>
          (let dangerous = isin ''DANGEROUS'' (upper safety);
               should_kill = (if dangerous then False else isin ''DECISION: YES'' (upper response));
               justification =
                 (if dangerous then parsed @ '' [DANGEROUS - will not be killed]'' else parsed)
           in Inr ((should_kill, justification),
                   history @ [ProcessDecision (p_name proc) (p_pid proc) should_kill safety
                                justification])))"

section \<open>The cleaner (main.py)\<close>

text \<open>
  \<open>general_cleanup\<close>, steps 1 and 2. Step 3 asks the monitor for a diagnosis; no code
  ever calls \<open>snapshot\<close>, so the monitor's history is empty, \<open>diagnose\<close> returns \<open>{}\<close> and
  the step does nothing. \<open>now\<close> is the clock, \<open>response\<close> the answer typed at the prompt.
\<close>

fun temp_in :: "config \<Rightarrow> filesystem \<Rightarrow> path list \<Rightarrow> path list \<Rightarrow> path list" where
  "temp_in cfg fs [] temp_files = temp_files"
| "temp_in cfg fs (file # rest) temp_files =
     (if \<not> is_file fs file then temp_in cfg fs rest temp_files
      else if is_in_whitelist cfg fs file then temp_in cfg fs rest temp_files
      else if lower (suffix file) \<in> set EXTENSIONS_TEMP then temp_in cfg fs rest (temp_files @ [file])
      else temp_in cfg fs rest temp_files)"

fun temp_dirs :: "config \<Rightarrow> filesystem \<Rightarrow> path list \<Rightarrow> path list \<Rightarrow> path list" where
  "temp_dirs cfg fs [] temp_files = temp_files"
| "temp_dirs cfg fs (dir_temp # rest) temp_files =
     (if \<not> exists fs dir_temp then temp_dirs cfg fs rest temp_files
      else temp_dirs cfg fs rest (temp_in cfg fs (rglob fs dir_temp) temp_files))"

fun compressed_in :: "filesystem \<Rightarrow> rat \<Rightarrow> path list \<Rightarrow> path list \<Rightarrow> py_error + path list" where
  "compressed_in fs now [] compressed = Inr compressed"
| "compressed_in fs now (file # rest) compressed =
     (if \<not> is_file fs file then compressed_in fs now rest compressed
      else if lower (suffix file) \<in> set EXTENSIONS_COMPRESSED then
        (case stat fs file of
           Inl e \<Rightarrow> Inl (OSErr e)
         | Inr s \<Rightarrow>
             (let days_unused = (now - st_mtime s) / 86400 in
              if days_unused > 30 then compressed_in fs now rest (compressed @ [file])
              else compressed_in fs now rest compressed))
      else compressed_in fs now rest compressed)"

fun compressed_dirs :: "filesystem \<Rightarrow> rat \<Rightarrow> path list \<Rightarrow> path list \<Rightarrow> py_error + path list" where
  "compressed_dirs fs now [] compressed = Inr compressed"
| "compressed_dirs fs now (dir_base # rest) compressed =
     (if \<not> exists fs dir_base then compressed_dirs fs now rest compressed
      else (case compressed_in fs now (rglob fs dir_base) compressed of
              Inl e \<Rightarrow> Inl e
            | Inr compressed' \<Rightarrow> compressed_dirs fs now rest compressed'))"

definition general_cleanup ::
  "config \<Rightarrow> executor \<Rightarrow> logger \<Rightarrow> filesystem \<Rightarrow> rat \<Rightarrow> string
     \<Rightarrow> py_error + (executor \<times> logger \<times> filesystem)" where
  "general_cleanup cfg ex lg fs now response =
     (let temp_files = temp_dirs cfg fs (TARGET_DIRS cfg) [] in
      case (if temp_files \<noteq> [] then delete_batch ex lg fs now temp_files ''temporary file''
            else (ex, lg, fs)) of
        (ex1, lg1, fs1) \<Rightarrow>
          (case compressed_dirs fs1 now
                  [child (home cfg) ''Downloads'', child (home cfg) ''Desktop''] [] of
             Inl e \<Rightarrow> Inl e
           | Inr compressed \<Rightarrow>
               if compressed \<noteq> [] \<and> lower (strip response) \<noteq> ''n''
               then Inr (delete_batch ex1 lg1 fs1 now compressed ''old compressed file'')
               else Inr (ex1, lg1, fs1)))"

text \<open>
  \<open>deep_cleanup\<close>, steps 4a and 4b: what the cleaner does with the dictionary that
  \<open>find_dup\<close> returned. \<open>getitem d k\<close> is \<open>d[k]\<close>.
\<close>

definition getitem :: "group \<Rightarrow> string \<Rightarrow> py_error + gval" where
  "getitem d k = (case map_of d k of None \<Rightarrow> Inl (KeyError k) | Some v \<Rightarrow> Inr v)"

text \<open>\<open>max(files, key=lambda a: a.stat().st_mtime)\<close>: the first file of greatest
  modification time.\<close>

fun newest_from :: "filesystem \<Rightarrow> path list \<Rightarrow> path \<times> rat \<Rightarrow> py_error + path" where
  "newest_from fs [] (best, m) = Inr best"
| "newest_from fs (a # rest) (best, m) =
     (case stat fs a of
        Inl e \<Rightarrow> Inl (OSErr e)
      | Inr s \<Rightarrow>
          if st_mtime s > m then newest_from fs rest (a, st_mtime s)
          else newest_from fs rest (best, m))"

definition most_recent_of :: "filesystem \<Rightarrow> path list \<Rightarrow> py_error + path" where
  "most_recent_of fs files =
     (case files of
        [] \<Rightarrow> Inl ValueError
      | a # rest \<Rightarrow>
          (case stat fs a of
             Inl e \<Rightarrow> Inl (OSErr e)
           | Inr s \<Rightarrow> newest_from fs rest (a, st_mtime s)))"

record world =
  w_executor :: executor
  w_logger :: logger
  w_fs :: filesystem
  w_history :: "decision list"

fun delete_each :: "world \<Rightarrow> rat \<Rightarrow> path list \<Rightarrow> string \<Rightarrow> world" where
  "delete_each w now [] reason = w"
| "delete_each w now (file # rest) reason =
     (case delete_file (w_executor w) (w_logger w) (w_fs w) now file reason of
        (ok, ex', lg', fs') \<Rightarrow>
          delete_each (w\<lparr>w_executor := ex', w_logger := lg', w_fs := fs'\<rparr>) now rest reason)"

fun confirmed_loop :: "world \<Rightarrow> rat \<Rightarrow> group list \<Rightarrow> py_error + world" where
  "confirmed_loop w now [] = Inr w"
| "confirmed_loop w now (grp # rest) =
     (case getitem grp ''files'' of
        Inl e \<Rightarrow> Inl e
      | Inr (VFiles files) \<Rightarrow>
          (case getitem grp ''size_mb'' of
             Inl e \<Rightarrow> Inl e
           | Inr (VNum size_mb) \<Rightarrow>
               (case most_recent_of (w_fs w) files of
                  Inl e \<Rightarrow> Inl e
                | Inr most_recent \<Rightarrow>
                    confirmed_loop
                      (delete_each w now (filter (\<lambda>a. a \<noteq> most_recent) files)
                         (''duplicate of '' @ name most_recent))
                      now rest)
           | Inr other \<Rightarrow> Inl TypeError)
      | Inr other \<Rightarrow> Inl TypeError)"

fun suspect_loop :: "(path list \<Rightarrow> string) \<Rightarrow> world \<Rightarrow> rat \<Rightarrow> group list \<Rightarrow> py_error + world" where
  "suspect_loop consult w now [] = Inr w"
| "suspect_loop consult w now (grp # rest) =
     (case getitem grp ''files'' of
        Inl e \<Rightarrow> Inl e
      | Inr (VFiles files) \<Rightarrow>
          (case getitem grp ''confidence'' of
             Inl e \<Rightarrow> Inl e
           | Inr (VNum confidence) \<Rightarrow>
               (case analyze_suspect_duplicate (w_history w) files confidence (consult files) of
                  Inl e \<Rightarrow> Inl e
                | Inr ((should_delete, justification), history') \<Rightarrow>
                    if should_delete then
                      (case most_recent_of (w_fs w) files of
                         Inl e \<Rightarrow> Inl e
                       | Inr most_recent \<Rightarrow>
                           suspect_loop consult
                             (delete_each (w\<lparr>w_history := history'\<rparr>) now
                                (filter (\<lambda>a. a \<noteq> most_recent) files)
                                (''suspect duplicate (LLM): '' @ justification))
                             now rest)
                    else suspect_loop consult (w\<lparr>w_history := history'\<rparr>) now rest)
           | Inr other \<Rightarrow> Inl TypeError)
      | Inr other \<Rightarrow> Inl TypeError)"

text \<open>\<open>consult\<close> gives the classifier's answer for a group of files; \<open>llm_available\<close> is
  the flag that the cleaner sets when it starts.\<close>

definition deep_cleanup_duplicates ::
  "bool \<Rightarrow> (path list \<Rightarrow> string) \<Rightarrow> world \<Rightarrow> rat \<Rightarrow> dup_state \<Rightarrow> py_error + world" where
  "deep_cleanup_duplicates llm_available consult w now duplicates =
     (case (if dup_confirmed duplicates \<noteq> [] then confirmed_loop w now (dup_confirmed duplicates)
            else Inr w) of
        Inl e \<Rightarrow> Inl e
      | Inr w1 \<Rightarrow>
          if dup_suspect duplicates \<noteq> [] then
            (if llm_available then suspect_loop consult w1 now (dup_suspect duplicates)
             else Inr w1)
          else Inr w1)"

text \<open>
  Step 5, the unused files. \<open>str_int\<close> is \<open>str\<close> of an integer; \<open>consult_old\<close> gives the
  classifier's answer for an old file. The list is sorted by \<open>days_unused\<close>, greatest
  first, entries of equal age keeping their order. With the classifier, every file it
  decides to delete is deleted; without it, the files with a temporary extension.
\<close>

definition str_int :: "int \<Rightarrow> string" where
  "str_int i = (if i < 0 then ''-'' @ str_nat (nat (- i)) else str_nat (nat i))"

fun old_files_llm :: "(path \<Rightarrow> string) \<Rightarrow> world \<Rightarrow> rat \<Rightarrow> unused_item list \<Rightarrow> py_error + world" where
  "old_files_llm consult_old w now [] = Inr w"
| "old_files_llm consult_old w now (item # rest) =
     (case analyze_old_file (w_fs w) (w_history w) (u_file item) (u_days_unused item)
             (consult_old (u_file item)) of
        Inl e \<Rightarrow> Inl e
      | Inr ((should_delete, justification), history') \<Rightarrow>
          if should_delete then
            (case delete_file (w_executor w) (w_logger w) (w_fs w) now (u_file item)
                    (''unused ('' @ str_int (u_days_unused item) @ '' days): '' @ justification) of
               (ok, ex', lg', fs') \<Rightarrow>
                 old_files_llm consult_old
                   (w\<lparr>w_executor := ex', w_logger := lg', w_fs := fs', w_history := history'\<rparr>)
                   now rest)
          else old_files_llm consult_old (w\<lparr>w_history := history'\<rparr>) now rest)"

fun old_files_basic :: "world \<Rightarrow> rat \<Rightarrow> unused_item list \<Rightarrow> world" where
  "old_files_basic w now [] = w"
| "old_files_basic w now (item # rest) =
     (if lower (suffix (u_file item)) \<in> set EXTENSIONS_TEMP then
        (case delete_file (w_executor w) (w_logger w) (w_fs w) now (u_file item)
                (''old temporary ('' @ str_int (u_days_unused item) @ '' days)'') of
           (ok, ex', lg', fs') \<Rightarrow>
             old_files_basic (w\<lparr>w_executor := ex', w_logger := lg', w_fs := fs'\<rparr>) now rest)
      else old_files_basic w now rest)"

definition deep_cleanup_unused ::
  "bool \<Rightarrow> (path \<Rightarrow> string) \<Rightarrow> config \<Rightarrow> world \<Rightarrow> rat \<Rightarrow> py_error + world" where
  "deep_cleanup_unused llm_available consult_old cfg w now =
     (let unused = unused_files cfg (w_fs w) now (TARGET_DIRS cfg) in
      if unused \<noteq> [] then
        (let sorted = sort_key (\<lambda>x. - u_days_unused x) unused in
         if llm_available then old_files_llm consult_old w now sorted
         else Inr (old_files_basic w now sorted))
      else Inr w)"

text \<open>
  Step 6 asks the monitor of the cleaner for a diagnosis. Nothing calls \<open>snapshot\<close>, so
  the history of that monitor is empty and \<open>diagnose\<close> returns the empty dictionary, which
  the first \<open>print\<close> of the step indexes with \<open>'snapshot'\<close>.
\<close>

definition diagnose :: "(string \<times> gval) list" where
  "diagnose = []"

text \<open>
  \<open>deep_cleanup\<close>: the general cleanup, the duplicate scan over \<open>TARGET_DIRS\<close> with the
  analyzer's digest cache, steps 4a and 4b, step 5 and step 6. An exception raised by a
  step ends the run.
\<close>

definition deep_cleanup ::
  "(bytes \<Rightarrow> string) \<Rightarrow> (filesystem \<Rightarrow> path list \<Rightarrow> rat) \<Rightarrow> bool \<Rightarrow> (path list \<Rightarrow> string)
     \<Rightarrow> (path \<Rightarrow> string) \<Rightarrow> config \<Rightarrow> hash_cache \<Rightarrow> world \<Rightarrow> rat \<Rightarrow> string \<Rightarrow> py_error + world" where
  "deep_cleanup md5 score llm_available consult consult_old cfg cache w now response =
     (case general_cleanup cfg (w_executor w) (w_logger w) (w_fs w) now response of
        Inl e \<Rightarrow> Inl e
      | Inr (ex1, lg1, fs1) \<Rightarrow>
          (let duplicates = find_dup_scored md5 score cfg fs1 cache (TARGET_DIRS cfg) in
           case deep_cleanup_duplicates llm_available consult
                  (w\<lparr>w_executor := ex1, w_logger := lg1, w_fs := fs1\<rparr>) now duplicates of
             Inl e \<Rightarrow> Inl e
           | Inr w2 \<Rightarrow>
               (case deep_cleanup_unused llm_available consult_old cfg w2 now of
                  Inl e \<Rightarrow> Inl e
                | Inr w3 \<Rightarrow>
                    (case getitem diagnose ''snapshot'' of
                       Inl e \<Rightarrow> Inl e
                     | Inr snapshot \<Rightarrow> Inr w3))))"

section \<open>Notions used to state the properties\<close>

text \<open>The files held by a \<open>defaultdict(list)\<close>; the files of a group record; and a group
  record of one of the two forms that \<open>find_dup\<close> builds, over files taken from \<open>F\<close>.\<close>

definition bucket_files :: "('k \<times> 'v list) list \<Rightarrow> 'v set" where
  "bucket_files m = (\<Union>(k, vs) \<in> set m. set vs)"

definition group_files :: "group \<Rightarrow> path list" where
  "group_files g = (case map_of g ''files'' of Some (VFiles fl) \<Rightarrow> fl | _ \<Rightarrow> [])"

definition shaped :: "path set \<Rightarrow> group \<Rightarrow> bool" where
  "shaped F g =
     (\<exists>fl mb acc. set fl \<subseteq> F \<and> (g = confirmed_group fl mb \<or> g = suspect_group fl mb acc))"









text \<open>
  The field that the loops of \<open>analyze_old_file\<close> and \<open>analyze_process\<close> read, described
  on the text of the response. A line is a field line for a marker (\<open>RISK:\<close> or
  \<open>SAFETY:\<close>) when its upper-cased text contains the marker and does not contain
  \<open>JUSTIFICATION:\<close>; \<open>field_lines\<close> lists the field lines of a response in order, and the
  words of a line are the words, separated by white space, that follow its first colon.
\<close>

definition field_line :: "string \<Rightarrow> string \<Rightarrow> bool" where
  "field_line marker line = (isin marker (upper line) \<and> \<not> isin ''JUSTIFICATION:'' (upper line))"

definition field_lines :: "string \<Rightarrow> string \<Rightarrow> string list" where
  "field_lines marker response = filter (field_line marker) (split_on (CHR 0x0A) response)"

definition field_words :: "string \<Rightarrow> string list" where
  "field_words line = split_ws (strip (tl (dropWhile (\<lambda>c. c \<noteq> CHR '':'') line)))"

section \<open>Example inputs\<close>

text \<open>A stand-in digest (the bytes themselves, as characters) for evaluating the
  definitions on concrete inputs; the theorems hold for every digest function.\<close>

definition example_md5 :: "bytes \<Rightarrow> string" where
  "example_md5 data = map (\<lambda>b. char_of (unat b)) data"

definition plain_node :: "bytes \<Rightarrow> rat \<Rightarrow> node" where
  "plain_node data t =
     \<lparr>content = data, mtime = t, atime = t, read_denied = False, move_denied = False\<rparr>"

definition downloads :: "string \<Rightarrow> path" where
  "downloads n = \<lparr>anchor = ''C:/'', parts = [''Users'', ''ana'', ''Downloads'', n]\<rparr>"

definition report_fs :: filesystem where
  "report_fs =
     \<lparr>entries = [(downloads ''report.docx'', plain_node [1, 2, 3] 0),
                 (downloads ''report (1).docx'', plain_node [1, 2, 3] 7200)],
      resolve = (\<lambda>p. p)\<rparr>"

definition locked_fs :: filesystem where
  "locked_fs =
     \<lparr>entries = [(downloads ''old.tmp'', (plain_node [1, 2, 3] 0)\<lparr>move_denied := True\<rparr>)],
      resolve = (\<lambda>p. p)\<rparr>"

definition gone_item :: recoverable where
  "gone_item =
     \<lparr>r_index = 0, r_original_file = downloads ''old.tmp'',
      r_quarantine =
        \<lparr>anchor = [],
         parts = [''data'', ''logs'', ''quarantine'', ''Users'', ''ana'', ''Downloads'', ''old.tmp'']\<rparr>,
      r_size_mb = 0, r_reason = ''temporary file''\<rparr>"

definition high_risk_response :: string where
  "high_risk_response =
     ''DECISION: YES'' @ [CHR 0x0A] @ ''RISK: HIGH'' @ [CHR 0x0A] @ ''JUSTIFICATION: old backup''"

definition dangerous_response :: string where
  "dangerous_response =
     ''DECISION: YES'' @ [CHR 0x0A] @ ''SAFETY: DANGEROUS'' @ [CHR 0x0A]
       @ ''JUSTIFICATION: system service''"

text \<open>Responses that revise the field on a later line, one whose field is followed by a
  no-break space, and one whose field ends with a sharp s.\<close>

definition revised_risk_response :: string where
  "revised_risk_response =
     ''DECISION: YES'' @ [CHR 0x0A] @ ''RISK: HIGH'' @ [CHR 0x0A] @ ''RISK: LOW'' @ [CHR 0x0A]
       @ ''JUSTIFICATION: x''"

definition revised_safety_response :: string where
  "revised_safety_response =
     ''DECISION: YES'' @ [CHR 0x0A] @ ''SAFETY: DANGEROUS'' @ [CHR 0x0A] @ ''SAFETY: SAFE''
       @ [CHR 0x0A] @ ''JUSTIFICATION: x''"

definition nbsp_response :: string where
  "nbsp_response = ''DECISION: YES'' @ [CHR 0x0A] @ ''RISK: LOW'' @ [CHR 0xA0] @ ''HIGH''"

definition sharp_response :: string where
  "sharp_response = ''DECISION: YES'' @ [CHR 0x0A] @ ''SAFETY: dangerou'' @ [CHR 0xDF]"

definition example_process :: process where
  "example_process =
     \<lparr>p_name = ''updater.exe'', p_pid = 4242, p_cpu = 1, p_ram = 12, p_path = None\<rparr>"

definition users_ana :: "string list \<Rightarrow> path" where
  "users_ana ps = \<lparr>anchor = ''C:/'', parts = [''Users'', ''ana''] @ ps\<rparr>"

definition example_config :: config where
  "example_config =
     \<lparr>appdata = users_ana [''AppData'', ''Roaming''],
      localappdata = users_ana [''AppData'', ''Local''],
      temp = users_ana [''AppData'', ''Local'', ''Temp''],
      tmp = users_ana [''AppData'', ''Local'', ''Temp''],
      home = users_ana []\<rparr>"

text \<open>A file system whose \<open>Downloads\<close> holds a link \<open>old.zip\<close> into \<open>C:/Program Files\<close>.\<close>

definition linked_fs :: filesystem where
  "linked_fs =
     \<lparr>entries = [(downloads ''old.zip'', plain_node [1, 2, 3] 0)],
      resolve = (\<lambda>p. if p = downloads ''old.zip''
                      then \<lparr>anchor = ''C:/'', parts = [''Program Files'', ''Archiver'', ''old.zip'']\<rparr>
                      else p)\<rparr>"

definition quarantined :: "string \<Rightarrow> path" where
  "quarantined n =
     \<lparr>anchor = [],
      parts = [''data'', ''logs'', ''quarantine'', ''Users'', ''ana'', ''Downloads'', n]\<rparr>"

text \<open>Two byte-identical files of 50 MB and one byte, with unlike names and modification
  times 40 days apart; and two empty files.\<close>

definition big_fs :: filesystem where
  "big_fs =
     \<lparr>entries = [(downloads ''holiday.mkv'', plain_node (replicate 52428801 0) 0),
                 (downloads ''backup.iso'', plain_node (replicate 52428801 0) (40 * 86400))],
      resolve = (\<lambda>p. p)\<rparr>"

definition empty_fs :: filesystem where
  "empty_fs =
     \<lparr>entries = [(downloads ''a.txt'', plain_node [] 0), (downloads ''b.txt'', plain_node [] 0)],
      resolve = (\<lambda>p. p)\<rparr>"

definition example_world :: "filesystem \<Rightarrow> world" where
  "example_world fs =
     \<lparr>w_executor = new_executor, w_logger = new_logger, w_fs = fs, w_history = []\<rparr>"

definition no_answer :: "path list \<Rightarrow> string" where
  "no_answer files = []"

definition no_reply :: "path \<Rightarrow> string" where
  "no_reply file = []"








section \<open>Properties of the similarity score\<close>

lemma score_extension_bounds: "0 \<le> score_extension f1 f2 \<and> score_extension f1 f2 \<le> 2 / 10"
  by (simp add: score_extension_def)

lemma score_name_bounds: "0 \<le> score_name f1 f2 \<and> score_name f1 f2 \<le> 4 / 10"
  by (simp add: score_name_def Let_def)

lemma score_date_bounds: "0 \<le> score_date fs f1 f2 \<and> score_date fs f1 f2 \<le> 2 / 10"
  by (simp add: score_date_def Let_def split: sum.splits)

lemma score_fast_hash_bounds:
  "0 \<le> score_fast_hash md5 fs f1 f2 \<and> score_fast_hash md5 fs f1 f2 \<le> 2 / 10"
  by (simp add: score_fast_hash_def split: sum.splits)

lemma pair_score_bounds: "0 \<le> pair_score md5 fs f1 f2 \<and> pair_score md5 fs f1 f2 \<le> 1"
  using score_extension_bounds [of f1 f2] score_name_bounds [of f1 f2]
    score_date_bounds [of fs f1 f2] score_fast_hash_bounds [of md5 fs f1 f2]
  unfolding pair_score_def by linarith

text \<open>Both loops keep the running total between 0 and the number of comparisons.\<close>

lemma inner_loop_bounds:
  "0 \<le> t \<Longrightarrow> t \<le> of_nat c \<Longrightarrow> inner_loop md5 fs f1 rest (t, c) = (t', c')
     \<Longrightarrow> 0 \<le> t' \<and> t' \<le> of_nat c'"
proof (induction rest arbitrary: t c)
  case Nil
  then show ?case by simp
next
  case (Cons f2 rest)
  have b: "0 \<le> pair_score md5 fs f1 f2 \<and> pair_score md5 fs f1 f2 \<le> 1"
    by (rule pair_score_bounds)
  have "inner_loop md5 fs f1 rest (t + pair_score md5 fs f1 f2, c + 1) = (t', c')"
    using Cons.prems(3) by simp
  moreover have "0 \<le> t + pair_score md5 fs f1 f2" using Cons.prems(1) b by linarith
  moreover have "t + pair_score md5 fs f1 f2 \<le> of_nat (c + 1)" using Cons.prems(2) b by simp
  ultimately show ?case by (rule Cons.IH [rotated 2])
qed

lemma outer_loop_bounds:
  "0 \<le> t \<Longrightarrow> t \<le> of_nat c \<Longrightarrow> outer_loop md5 fs files (t, c) = (t', c')
     \<Longrightarrow> 0 \<le> t' \<and> t' \<le> of_nat c'"
proof (induction files arbitrary: t c)
  case Nil
  then show ?case by simp
next
  case (Cons f1 rest)
  obtain t1 c1 where i: "inner_loop md5 fs f1 rest (t, c) = (t1, c1)"
    by (cases "inner_loop md5 fs f1 rest (t, c)")
  have b1: "0 \<le> t1 \<and> t1 \<le> of_nat c1"
    using inner_loop_bounds [OF Cons.prems(1) Cons.prems(2) i] .
  have "outer_loop md5 fs rest (t1, c1) = (t', c')"
    using Cons.prems(3) i by simp
  with b1 show ?case using Cons.IH [of t1 c1] by blast
qed

text \<open>
  Claim C8. For every list of files, the group score that \<open>_calculate_accuracy_fuzzy\<close>
  returns lies between 0 and 1 inclusive, and for a list of fewer than two files it is
  exactly 0. (Scores are exact rationals.)
\<close>

theorem accuracy_bounded:
  "0 \<le> calculate_accuracy_fuzzy md5 fs files
   \<and> calculate_accuracy_fuzzy md5 fs files \<le> 1
   \<and> (length files < 2 \<longrightarrow> calculate_accuracy_fuzzy md5 fs files = 0)"
proof -
  obtain t c where o: "outer_loop md5 fs files (0, 0) = (t, c)"
    by (cases "outer_loop md5 fs files (0, 0)")
  have b: "0 \<le> t \<and> t \<le> of_nat c"
    using outer_loop_bounds [of 0 0 md5 fs files t c] o by simp
  have "0 < c \<Longrightarrow> t / of_nat c \<le> 1"
    using b by (simp add: divide_le_eq_1)
  moreover have "0 \<le> t / of_nat c" using b by simp
  ultimately show ?thesis
    using o by (simp add: calculate_accuracy_fuzzy_def)
qed

theorem accuracy_bounded_witness:
  "length [downloads ''report.docx''] < 2
   \<and> calculate_accuracy_fuzzy example_md5 report_fs [downloads ''report.docx''] = 0
   \<and> calculate_accuracy_fuzzy example_md5 report_fs
        [downloads ''report.docx'', downloads ''report (1).docx''] \<le> 1"
  using accuracy_bounded [of example_md5 report_fs "[downloads ''report.docx'']"]
    accuracy_bounded [of example_md5 report_fs
      "[downloads ''report.docx'', downloads ''report (1).docx'']"]
  by simp

lemmas example_defs = report_fs_def downloads_def plain_node_def example_md5_def name_def
  stat_def lookup_def fast_hash_def read_file_def

lemma report_names:
  "suffix_of ''report.docx'' = ''.docx''" "suffix_of ''report (1).docx'' = ''.docx''"
  "lower (stem_of ''report.docx'') = ''report''"
  "lower (stem_of ''report (1).docx'') = ''report (1)''"
  by (simp_all add: suffix_of_def stem_of_def lower_def lower_chr_def)

text \<open>
  Claim C6, as the code has it. For two files named \<open>report.docx\<close> and
  \<open>report (1).docx\<close> with the same extension, the same size, modification times two hours
  apart and the same fast digest, the name signal is 0.3, not 0.4: the stems \<open>report\<close> and
  \<open>report (1)\<close> are compared as they are, the first is a substring of the second, and the
  numeric suffix is stripped only inside \<open>_name_similarity\<close>, which this pair never
  reaches. The score is 0.2 + 0.3 + 0.2 + 0.2, that is 0.9 in exact arithmetic.
\<close>

theorem report_pair_score:
  assumes "name f1 = ''report.docx''" and "name f2 = ''report (1).docx''"
    and "stat fs f1 = Inr s1" and "stat fs f2 = Inr s2"
    and "st_size s1 = st_size s2"
    and "\<bar>st_mtime s1 - st_mtime s2\<bar> = 2 * 3600"
    and "fast_hash md5 fs f1 = Inr h" and "fast_hash md5 fs f2 = Inr h"
  shows "score_name f1 f2 = 3 / 10
         \<and> calculate_accuracy_fuzzy md5 fs [f1, f2] = 2 / 10 + 3 / 10 + 2 / 10 + 2 / 10"
proof -
  have e: "score_extension f1 f2 = 2 / 10"
    using assms(1,2) by (simp add: score_extension_def suffix_def report_names)
  have n: "score_name f1 f2 = 3 / 10"
    using assms(1,2) by (simp add: score_name_def stem_def report_names)
  have d: "score_date fs f1 f2 = 2 / 10"
    using assms(3,4,6) by (simp add: score_date_def)
  have f: "score_fast_hash md5 fs f1 f2 = 2 / 10"
    using assms(7,8) by (simp add: score_fast_hash_def)
  show ?thesis
    using e n d f by (simp add: calculate_accuracy_fuzzy_def pair_score_def)
qed

theorem report_pair_score_witness:
  "name (downloads ''report.docx'') = ''report.docx''
   \<and> name (downloads ''report (1).docx'') = ''report (1).docx''
   \<and> stat report_fs (downloads ''report.docx'') = Inr \<lparr>st_size = 3, st_mtime = 0, st_atime = 0\<rparr>
   \<and> stat report_fs (downloads ''report (1).docx'')
       = Inr \<lparr>st_size = 3, st_mtime = 7200, st_atime = 7200\<rparr>
   \<and> fast_hash example_md5 report_fs (downloads ''report.docx'')
       = fast_hash example_md5 report_fs (downloads ''report (1).docx'')
   \<and> calculate_accuracy_fuzzy example_md5 report_fs
        [downloads ''report.docx'', downloads ''report (1).docx''] = 9 / 10"
  using report_pair_score [of "downloads ''report.docx''" "downloads ''report (1).docx''" report_fs
      "\<lparr>st_size = 3, st_mtime = 0, st_atime = 0\<rparr>"
      "\<lparr>st_size = 3, st_mtime = 7200, st_atime = 7200\<rparr>"
      example_md5 "example_md5 [1, 2, 3]"]
  by (simp add: example_defs)

text \<open>The claim as stated (score exactly 1.0) fails on these two files.\<close>

theorem report_pair_counterexample:
  "calculate_accuracy_fuzzy example_md5 report_fs
     [downloads ''report.docx'', downloads ''report (1).docx''] \<noteq> 1"
  by (simp add: calculate_accuracy_fuzzy_def pair_score_def score_extension_def score_name_def
      score_date_def score_fast_hash_def suffix_def stem_def report_names example_defs)

section \<open>Properties of the quarantine store and the recovery manager\<close>

lemmas fs_defs = lookup_def is_file_def is_dir_def exists_def stat_def under_def

lemmas move_defs = add_action_def shutil_move_def mkdir_parents_def ancestors_def joinpath_def
  parent_def child_def remove_entry_def

text \<open>
  Claim C2, evaluated where the code departs from it. The file \<open>old.tmp\<close> exists and may
  not be moved. \<open>add_action\<close> catches the failure of the move and records the action with
  status \<open>error\<close> and the error text, and the file stays where it is; but the exception
  never reaches \<open>Executor.delete_file\<close>, which returns \<open>True\<close>, counts the file in
  \<open>files_deleted\<close>, adds its size to \<open>space_freed_mb\<close> and leaves \<open>errors\<close> empty.
\<close>

theorem delete_file_move_failure:
  "delete_file new_executor new_logger locked_fs 100 (downloads ''old.tmp'') ''temporary file''
   = (True,
      new_executor\<lparr>files_deleted := 1, space_freed_mb := 3 / (1024 * 1024)\<rparr>,
      new_logger\<lparr>actions :=
        [\<lparr>a_type = ''delete'', a_file = downloads ''old.tmp'',
          a_details = \<lparr>d_reason = ''temporary file'',
                       d_size_mb = Some (round2 (3 / (1024 * 1024))), d_pid = None\<rparr>,
          a_timestamp = 100, a_quarantine = None, a_status = Some ''error'',
          a_error = Some ''[Errno 13] Permission denied''\<rparr>]\<rparr>,
      locked_fs)"
  by (simp add: delete_file_def new_executor_def new_logger_def locked_fs_def downloads_def
      plain_node_def fs_defs move_defs name_def Let_def)

lemma delete_unselected_missing:
  "\<forall>item \<in> set items. \<not> exists fs (r_quarantine item)
     \<Longrightarrow> delete_unselected items (out, fs) = (out, fs)"
  by (induction items) (simp_all add: recuperator_delete_file_def)

text \<open>
  Claim C7, as the code has it. Purging an entry whose quarantine copy no longer exists
  is a no-op that prints nothing: \<open>Recuperator.delete_file\<close> returns without output and
  without touching the file system, and the loop that purges the unselected entries of
  \<open>interactive_menu\<close> passes over every such entry and runs to its end. Neither function
  has a failing result, so no exception halts the batch.
\<close>

theorem purge_missing_silent:
  assumes "\<forall>item \<in> set items. \<not> exists fs (r_quarantine item)"
  shows "(\<forall>item \<in> set items. recuperator_delete_file fs item = ([], fs))
         \<and> delete_unselected items (out, fs) = (out, fs)"
  using assms delete_unselected_missing [of items fs out]
  by (simp add: recuperator_delete_file_def)

theorem purge_missing_silent_witness:
  "\<not> exists report_fs (r_quarantine gone_item)
   \<and> recuperator_delete_file report_fs gone_item = ([], report_fs)
   \<and> delete_unselected [gone_item, gone_item] ([], report_fs) = ([], report_fs)"
  using purge_missing_silent [of "[gone_item, gone_item]" report_fs "[]"]
  by (simp add: gone_item_def report_fs_def downloads_def fs_defs)

text \<open>The claim as stated has the purge report ``not found'': on a missing copy it
  prints nothing at all.\<close>

theorem purge_missing_counterexample:
  "\<not> exists report_fs (r_quarantine gone_item)
   \<and> fst (recuperator_delete_file report_fs gone_item) = []"
  by (simp add: recuperator_delete_file_def gone_item_def report_fs_def downloads_def fs_defs)

section \<open>Properties of the arbitration policy\<close>

lemmas str_defs = upper_def upper_chr_def strip_def is_space_def split_ws_def after_colon_def
  first_word_def Let_def

text \<open>A text that contains a marker ending in a colon has a colon, so the split at the
  first colon has a second part: the text after that colon.\<close>

lemma starts_with_set: "starts_with a s \<Longrightarrow> set a \<subseteq> set s"
  by (induction a s rule: starts_with.induct) auto

lemma isin_set: "isin a s \<Longrightarrow> set a \<subseteq> set s"
proof (induction s)
  case Nil
  then show ?case by simp
next
  case (Cons c cs)
  from Cons.prems have "starts_with a (c # cs) \<or> isin a cs" by simp
  then show ?case
  proof
    assume "starts_with a (c # cs)"
    then show ?thesis by (rule starts_with_set)
  next
    assume "isin a cs"
    then have "set a \<subseteq> set cs" by (rule Cons.IH)
    then show ?thesis by auto
  qed
qed

lemma upper_chr_colon: "CHR '':'' \<in> set (upper_chr c) \<Longrightarrow> c = CHR '':''"
proof -
  assume a: "CHR '':'' \<in> set (upper_chr c)"
  let ?n = "of_char c :: nat"
  have "char_of (?n - 32) \<noteq> CHR '':''" if "97 \<le> ?n"
  proof
    assume "char_of (?n - 32) = CHR '':''"
    then have "(of_char (char_of (?n - 32) :: char) :: nat) = of_char (CHR '':'')" by simp
    then have "(?n - 32) mod 256 = 58" by simp
    moreover have "?n < 256" by simp
    ultimately show False using that by simp
  qed
  then show ?thesis
    using a by (auto simp: upper_chr_def Let_def split: if_splits)
qed

lemma upper_colon: "CHR '':'' \<in> set (upper s) \<Longrightarrow> CHR '':'' \<in> set s"
  by (auto simp: upper_def dest: upper_chr_colon)

lemma marker_colon: "isin m (upper line) \<Longrightarrow> CHR '':'' \<in> set m \<Longrightarrow> CHR '':'' \<in> set line"
  using isin_set [of m "upper line"] upper_colon [of line] by blast

lemma split_first_member:
  "sep \<in> set line
   \<Longrightarrow> split_first sep line = [takeWhile (\<lambda>c. c \<noteq> sep) line, tl (dropWhile (\<lambda>c. c \<noteq> sep) line)]"
  by (induction line) auto

lemma after_colon_member:
  "CHR '':'' \<in> set line \<Longrightarrow> after_colon line = Inr (tl (dropWhile (\<lambda>c. c \<noteq> CHR '':'') line))"
  by (simp add: after_colon_def split_first_member)

lemma first_word_field:
  "first_word (strip (tl (dropWhile (\<lambda>c. c \<noteq> CHR '':'') line)))
     = (case field_words line of [] \<Rightarrow> Inl IndexError | w # ws \<Rightarrow> Inr w)"
  by (simp add: first_word_def field_words_def)

text \<open>The loops end with the first word of the last field line, or with the default
  when the response has no field line.\<close>

lemma old_file_lines_field:
  "\<forall>l \<in> set (filter (field_line ''RISK:'') ls). field_words l \<noteq> []
   \<Longrightarrow> \<exists>j'. old_file_lines ls (j, r)
             = Inr (j', if filter (field_line ''RISK:'') ls = [] then r
                        else hd (field_words (last (filter (field_line ''RISK:'') ls))))"
proof (induction ls arbitrary: j r)
  case Nil
  then show ?case by simp
next
  case (Cons line rest)
  have rest: "\<forall>l \<in> set (filter (field_line ''RISK:'') rest). field_words l \<noteq> []"
    using Cons.prems by simp
  show ?case
  proof (cases "isin ''JUSTIFICATION:'' (upper line)")
    case True
    then have c: "CHR '':'' \<in> set line" by (rule marker_colon) simp
    have nf: "\<not> field_line ''RISK:'' line" using True by (simp add: field_line_def)
    from Cons.IH [OF rest, of "strip (tl (dropWhile (\<lambda>c. c \<noteq> CHR '':'') line))" r]
    obtain j' where
      "old_file_lines rest (strip (tl (dropWhile (\<lambda>c. c \<noteq> CHR '':'') line)), r)
         = Inr (j', if filter (field_line ''RISK:'') rest = [] then r
                    else hd (field_words (last (filter (field_line ''RISK:'') rest))))"
      by blast
    then show ?thesis using True nf by (auto simp add: after_colon_member [OF c])
  next
    case False
    show ?thesis
    proof (cases "isin ''RISK:'' (upper line)")
      case True
      then have c: "CHR '':'' \<in> set line" by (rule marker_colon) simp
      have f: "field_line ''RISK:'' line" using True False by (simp add: field_line_def)
      then have "field_words line \<noteq> []" using Cons.prems by simp
      then obtain w ws where w: "field_words line = w # ws"
        by (cases "field_words line") auto
      from Cons.IH [OF rest, of j w] obtain j' where
        "old_file_lines rest (j, w)
           = Inr (j', if filter (field_line ''RISK:'') rest = [] then w
                      else hd (field_words (last (filter (field_line ''RISK:'') rest))))"
        by blast
      then show ?thesis
        using True False f w by (auto simp add: after_colon_member [OF c] first_word_field)
    next
      case nr: False
      have nf: "\<not> field_line ''RISK:'' line" using nr by (simp add: field_line_def)
      from Cons.IH [OF rest, of j r] obtain j' where
        "old_file_lines rest (j, r)
           = Inr (j', if filter (field_line ''RISK:'') rest = [] then r
                      else hd (field_words (last (filter (field_line ''RISK:'') rest))))"
        by blast
      then show ?thesis using False nr nf by auto
    qed
  qed
qed

lemma process_lines_field:
  "\<forall>l \<in> set (filter (field_line ''SAFETY:'') ls). field_words l \<noteq> []
   \<Longrightarrow> \<exists>j'. process_lines ls (j, r)
             = Inr (j', if filter (field_line ''SAFETY:'') ls = [] then r
                        else hd (field_words (last (filter (field_line ''SAFETY:'') ls))))"
proof (induction ls arbitrary: j r)
  case Nil
  then show ?case by simp
next
  case (Cons line rest)
  have rest: "\<forall>l \<in> set (filter (field_line ''SAFETY:'') rest). field_words l \<noteq> []"
    using Cons.prems by simp
  show ?case
  proof (cases "isin ''JUSTIFICATION:'' (upper line)")
    case True
    then have c: "CHR '':'' \<in> set line" by (rule marker_colon) simp
    have nf: "\<not> field_line ''SAFETY:'' line" using True by (simp add: field_line_def)
    from Cons.IH [OF rest, of "strip (tl (dropWhile (\<lambda>c. c \<noteq> CHR '':'') line))" r]
    obtain j' where
      "process_lines rest (strip (tl (dropWhile (\<lambda>c. c \<noteq> CHR '':'') line)), r)
         = Inr (j', if filter (field_line ''SAFETY:'') rest = [] then r
                    else hd (field_words (last (filter (field_line ''SAFETY:'') rest))))"
      by blast
    then show ?thesis using True nf by (auto simp add: after_colon_member [OF c])
  next
    case False
    show ?thesis
    proof (cases "isin ''SAFETY:'' (upper line)")
      case True
      then have c: "CHR '':'' \<in> set line" by (rule marker_colon) simp
      have f: "field_line ''SAFETY:'' line" using True False by (simp add: field_line_def)
      then have "field_words line \<noteq> []" using Cons.prems by simp
      then obtain w ws where w: "field_words line = w # ws"
        by (cases "field_words line") auto
      from Cons.IH [OF rest, of j w] obtain j' where
        "process_lines rest (j, w)
           = Inr (j', if filter (field_line ''SAFETY:'') rest = [] then w
                      else hd (field_words (last (filter (field_line ''SAFETY:'') rest))))"
        by blast
      then show ?thesis
        using True False f w by (auto simp add: after_colon_member [OF c] first_word_field)
    next
      case nr: False
      have nf: "\<not> field_line ''SAFETY:'' line" using nr by (simp add: field_line_def)
      from Cons.IH [OF rest, of j r] obtain j' where
        "process_lines rest (j, r)
           = Inr (j', if filter (field_line ''SAFETY:'') rest = [] then r
                      else hd (field_words (last (filter (field_line ''SAFETY:'') rest))))"
        by blast
      then show ?thesis using False nr nf by auto
    qed
  qed
qed

lemma duplicate_lines_returns: "\<exists>v. duplicate_lines ls = Inr v"
proof (induction ls)
  case Nil
  then show ?case by simp
next
  case (Cons line rest)
  show ?case
  proof (cases "isin ''JUSTIFICATION:'' (upper line)")
    case True
    then have c: "CHR '':'' \<in> set line" by (rule marker_colon) simp
    show ?thesis using True by (simp add: after_colon_member [OF c])
  next
    case False
    then show ?thesis using Cons.IH by simp
  qed
qed

text \<open>
  Claim C3, as the code has it. The aged-file analysis reads its risk field from the
  last field line for \<open>RISK:\<close> of the response, as the first word after the first colon
  of that line (\<open>MEDIUM\<close> when there is no such line); the process analysis reads its
  safety field in the same way from the last field line for \<open>SAFETY:\<close> (\<open>CAUTION\<close> when
  there is none). Provided every field line has a word after its colon, the analysis
  returns: when the field contains \<open>HIGH\<close>, or \<open>DANGEROUS\<close>, the decision is keep, or
  no-kill, whatever the response says after \<open>DECISION:\<close>, and the justification ends
  with the note of the override; otherwise the decision is whether the response
  contains \<open>DECISION: YES\<close>. The suspect-duplicate analysis reads no risk field: it
  decides to delete for every response that contains \<open>DECISION: YES\<close>.
\<close>

theorem safety_override:
  "((\<forall>l \<in> set (field_lines ''RISK:'' response). field_words l \<noteq> [])
      \<and> stat fs file = Inr s
      \<and> risk = (if field_lines ''RISK:'' response = [] then ''MEDIUM''
                 else hd (field_words (last (field_lines ''RISK:'' response))))
    \<longrightarrow> (\<exists>j. analyze_old_file fs history file days_unused response
             = (if isin ''HIGH'' (upper risk)
                then Inr ((False, j @ '' [HIGH RISK - requires manual confirmation]''),
                          history @ [OldFile file days_unused False risk
                                       (j @ '' [HIGH RISK - requires manual confirmation]'')])
                else Inr ((isin ''DECISION: YES'' (upper response), j),
                          history @ [OldFile file days_unused
                                       (isin ''DECISION: YES'' (upper response)) risk j]))))
   \<and> ((\<forall>l \<in> set (field_lines ''SAFETY:'' response). field_words l \<noteq> [])
      \<and> safety = (if field_lines ''SAFETY:'' response = [] then ''CAUTION''
                   else hd (field_words (last (field_lines ''SAFETY:'' response))))
    \<longrightarrow> (\<exists>j. analyze_process history proc response
             = (if isin ''DANGEROUS'' (upper safety)
                then Inr ((False, j @ '' [DANGEROUS - will not be killed]''),
                          history @ [ProcessDecision (p_name proc) (p_pid proc) False safety
                                       (j @ '' [DANGEROUS - will not be killed]'')])
                else Inr ((isin ''DECISION: YES'' (upper response), j),
                          history @ [ProcessDecision (p_name proc) (p_pid proc)
                                       (isin ''DECISION: YES'' (upper response)) safety j]))))
   \<and> (isin ''DECISION: YES'' (upper response)
    \<longrightarrow> (\<exists>j. analyze_suspect_duplicate history files confidence response
             = Inr ((True, j), history @ [SuspectDuplicate files confidence True j])))"
proof -
  have old: "\<exists>j. analyze_old_file fs history file days_unused response
             = (if isin ''HIGH'' (upper risk)
                then Inr ((False, j @ '' [HIGH RISK - requires manual confirmation]''),
                          history @ [OldFile file days_unused False risk
                                       (j @ '' [HIGH RISK - requires manual confirmation]'')])
                else Inr ((isin ''DECISION: YES'' (upper response), j),
                          history @ [OldFile file days_unused
                                       (isin ''DECISION: YES'' (upper response)) risk j]))"
    if w: "\<forall>l \<in> set (field_lines ''RISK:'' response). field_words l \<noteq> []"
      and st: "stat fs file = Inr s"
      and rk: "risk = (if field_lines ''RISK:'' response = [] then ''MEDIUM''
                       else hd (field_words (last (field_lines ''RISK:'' response))))"
  proof -
    obtain j where "old_file_lines (split_on (CHR 0x0A) response) ([], ''MEDIUM'') = Inr (j, risk)"
      using old_file_lines_field [of "split_on (CHR 0x0A) response" "[]" "''MEDIUM''"] w
      unfolding rk field_lines_def by blast
    then show ?thesis
      using st by (simp add: analyze_old_file_def Let_def)
  qed
  have pr: "\<exists>j. analyze_process history proc response
             = (if isin ''DANGEROUS'' (upper safety)
                then Inr ((False, j @ '' [DANGEROUS - will not be killed]''),
                          history @ [ProcessDecision (p_name proc) (p_pid proc) False safety
                                       (j @ '' [DANGEROUS - will not be killed]'')])
                else Inr ((isin ''DECISION: YES'' (upper response), j),
                          history @ [ProcessDecision (p_name proc) (p_pid proc)
                                       (isin ''DECISION: YES'' (upper response)) safety j]))"
    if w: "\<forall>l \<in> set (field_lines ''SAFETY:'' response). field_words l \<noteq> []"
      and sf: "safety = (if field_lines ''SAFETY:'' response = [] then ''CAUTION''
                         else hd (field_words (last (field_lines ''SAFETY:'' response))))"
  proof -
    obtain j where "process_lines (split_on (CHR 0x0A) response) ([], ''CAUTION'') = Inr (j, safety)"
      using process_lines_field [of "split_on (CHR 0x0A) response" "[]" "''CAUTION''"] w
      unfolding sf field_lines_def by blast
    then show ?thesis
      by (simp add: analyze_process_def Let_def)
  qed
  have du: "\<exists>j. analyze_suspect_duplicate history files confidence response
             = Inr ((True, j), history @ [SuspectDuplicate files confidence True j])"
    if y: "isin ''DECISION: YES'' (upper response)"
  proof -
    obtain v where "duplicate_lines (split_on (CHR 0x0A) response) = Inr v"
      using duplicate_lines_returns by blast
    then show ?thesis
      using y by (simp add: analyze_suspect_duplicate_def Let_def)
  qed
  show ?thesis
    using old pr du by (intro conjI impI) blast+
qed

lemmas response_defs = high_risk_response_def dangerous_response_def revised_risk_response_def
  revised_safety_response_def nbsp_response_def sharp_response_def

lemma example_fields:
  "field_lines ''RISK:'' high_risk_response = [''RISK: HIGH'']"
  "field_lines ''SAFETY:'' dangerous_response = [''SAFETY: DANGEROUS'']"
  "field_lines ''RISK:'' nbsp_response = [''RISK: LOW'' @ [CHR 0xA0] @ ''HIGH'']"
  "field_words ''RISK: HIGH'' = [''HIGH'']"
  "field_words ''SAFETY: DANGEROUS'' = [''DANGEROUS'']"
  "field_words (''RISK: LOW'' @ [CHR 0xA0] @ ''HIGH'') = [''LOW'', ''HIGH'']"
  "field_lines ''SAFETY:'' sharp_response = [''SAFETY: dangerou'' @ [CHR 0xDF]]"
  "field_words (''SAFETY: dangerou'' @ [CHR 0xDF]) = [''dangerou'' @ [CHR 0xDF]]"
  "upper (''dangerou'' @ [CHR 0xDF]) = ''DANGEROUSS''"
  by (simp_all add: field_lines_def field_line_def field_words_def response_defs str_defs
      char_of_def bit_0)

lemma example_old_file:
  "analyze_old_file report_fs [] (downloads ''report.docx'') 200 high_risk_response
      = Inr ((False, ''old backup [HIGH RISK - requires manual confirmation]''),
          [OldFile (downloads ''report.docx'') 200 False ''HIGH''
             ''old backup [HIGH RISK - requires manual confirmation]''])"
  "analyze_old_file report_fs [] (downloads ''report.docx'') 200 nbsp_response
      = Inr ((True, []), [OldFile (downloads ''report.docx'') 200 True ''LOW'' []])"
  "analyze_old_file report_fs [] (downloads ''report.docx'') 200 revised_risk_response
      = Inr ((True, ''x''), [OldFile (downloads ''report.docx'') 200 True ''LOW'' ''x''])"
  by (simp_all add: analyze_old_file_def response_defs str_defs example_defs)

lemma example_process_analysis:
  "analyze_process [] example_process dangerous_response
      = Inr ((False, ''system service [DANGEROUS - will not be killed]''),
          [ProcessDecision ''updater.exe'' 4242 False ''DANGEROUS''
             ''system service [DANGEROUS - will not be killed]''])"
  "analyze_process [] example_process revised_safety_response
      = Inr ((True, ''x''), [ProcessDecision ''updater.exe'' 4242 True ''SAFE'' ''x''])"
  by (simp_all add: analyze_process_def response_defs str_defs example_process_def)

theorem safety_override_witness:
  "isin ''DECISION: YES'' (upper high_risk_response)
   \<and> field_lines ''RISK:'' high_risk_response = [''RISK: HIGH'']
   \<and> field_words ''RISK: HIGH'' = [''HIGH'']
   \<and> analyze_old_file report_fs [] (downloads ''report.docx'') 200 high_risk_response
      = Inr ((False, ''old backup [HIGH RISK - requires manual confirmation]''),
          [OldFile (downloads ''report.docx'') 200 False ''HIGH''
             ''old backup [HIGH RISK - requires manual confirmation]''])
   \<and> isin ''DECISION: YES'' (upper dangerous_response)
   \<and> field_lines ''SAFETY:'' dangerous_response = [''SAFETY: DANGEROUS'']
   \<and> field_words ''SAFETY: DANGEROUS'' = [''DANGEROUS'']
   \<and> analyze_process [] example_process dangerous_response
      = Inr ((False, ''system service [DANGEROUS - will not be killed]''),
          [ProcessDecision ''updater.exe'' 4242 False ''DANGEROUS''
             ''system service [DANGEROUS - will not be killed]''])
   \<and> isin ''DECISION: YES'' (upper nbsp_response)
   \<and> field_words (''RISK: LOW'' @ [CHR 0xA0] @ ''HIGH'') = [''LOW'', ''HIGH'']
   \<and> (\<exists>j. analyze_old_file report_fs [] (downloads ''report.docx'') 200 nbsp_response
            = Inr ((True, j), [OldFile (downloads ''report.docx'') 200 True ''LOW'' j]))
   \<and> (\<exists>j. analyze_suspect_duplicate [] [downloads ''report.docx''] (1 / 2) high_risk_response
            = Inr ((True, j), [SuspectDuplicate [downloads ''report.docx''] (1 / 2) True j]))
   \<and> isin ''DECISION: YES'' (upper sharp_response)
   \<and> upper (''dangerou'' @ [CHR 0xDF]) = ''DANGEROUSS''
   \<and> (\<exists>j. analyze_process [] example_process sharp_response
            = Inr ((False, j @ '' [DANGEROUS - will not be killed]''),
                 [ProcessDecision ''updater.exe'' 4242 False (''dangerou'' @ [CHR 0xDF])
                    (j @ '' [DANGEROUS - will not be killed]'')]))"
proof -
  have u: "isin ''DECISION: YES'' (upper high_risk_response)"
    "isin ''DECISION: YES'' (upper dangerous_response)"
    "isin ''DECISION: YES'' (upper nbsp_response)"
    "isin ''DECISION: YES'' (upper sharp_response)"
    by (simp_all add: response_defs str_defs)
  have h: "isin ''HIGH'' (upper ''HIGH'')" "isin ''DANGEROUS'' (upper ''DANGEROUS'')"
    "\<not> isin ''HIGH'' (upper ''LOW'')" "isin ''DANGEROUS'' ''DANGEROUSS''"
    by (simp_all add: str_defs)
  have s1: "stat report_fs (downloads ''report.docx'')
              = Inr \<lparr>st_size = 3, st_mtime = 0, st_atime = 0\<rparr>"
    by (simp add: example_defs)
  note t1 = safety_override [of high_risk_response report_fs "downloads ''report.docx''"
      "\<lparr>st_size = 3, st_mtime = 0, st_atime = 0\<rparr>" "''HIGH''" "[]" 200 "''CAUTION''"
      example_process "[downloads ''report.docx'']" "1 / 2"]
  note t2 = safety_override [of dangerous_response report_fs "downloads ''report.docx''"
      "\<lparr>st_size = 3, st_mtime = 0, st_atime = 0\<rparr>" "''MEDIUM''" "[]" 200 "''DANGEROUS''"
      example_process "[downloads ''report.docx'']" "1 / 2"]
  note t3 = safety_override [of nbsp_response report_fs "downloads ''report.docx''"
      "\<lparr>st_size = 3, st_mtime = 0, st_atime = 0\<rparr>" "''LOW''" "[]" 200 "''CAUTION''"
      example_process "[downloads ''report.docx'']" "1 / 2"]
  note t4 = safety_override [of sharp_response report_fs "downloads ''report.docx''"
      "\<lparr>st_size = 3, st_mtime = 0, st_atime = 0\<rparr>" "''MEDIUM''" "[]" 200
      "''dangerou'' @ [CHR 0xDF]" example_process "[downloads ''report.docx'']" "1 / 2"]
  have e: "\<exists>j. analyze_process [] example_process sharp_response
            = Inr ((False, j @ '' [DANGEROUS - will not be killed]''),
                 [ProcessDecision ''updater.exe'' 4242 False (''dangerou'' @ [CHR 0xDF])
                    (j @ '' [DANGEROUS - will not be killed]'')])"
    using t4 h(4) example_fields by (simp add: example_process_def)
  have a: "\<exists>j. analyze_old_file report_fs [] (downloads ''report.docx'') 200 nbsp_response
            = Inr ((True, j), [OldFile (downloads ''report.docx'') 200 True ''LOW'' j])"
    using t3 u(3) h(3) s1 example_fields by simp
  have b: "\<exists>j. analyze_suspect_duplicate [] [downloads ''report.docx''] (1 / 2) high_risk_response
            = Inr ((True, j), [SuspectDuplicate [downloads ''report.docx''] (1 / 2) True j])"
    using t1 u(1) by simp
  have c: "\<exists>j. analyze_old_file report_fs [] (downloads ''report.docx'') 200 high_risk_response
            = Inr ((False, j @ '' [HIGH RISK - requires manual confirmation]''),
                 [OldFile (downloads ''report.docx'') 200 False ''HIGH''
                    (j @ '' [HIGH RISK - requires manual confirmation]'')])"
    using t1 h(1) s1 example_fields by simp
  have d: "\<exists>j. analyze_process [] example_process dangerous_response
            = Inr ((False, j @ '' [DANGEROUS - will not be killed]''),
                 [ProcessDecision (p_name example_process) (p_pid example_process) False
                    ''DANGEROUS'' (j @ '' [DANGEROUS - will not be killed]'')])"
    using t2 h(2) example_fields by simp
  show ?thesis
    using u a b c d e example_fields example_old_file example_process_analysis by simp
qed

text \<open>
  The claim as stated has every operation keep whenever the response contains
  \<open>DECISION: YES\<close> together with \<open>RISK: HIGH\<close>, or \<open>SAFETY: DANGEROUS\<close>. The
  suspect-duplicate analysis decides to delete on such a response; and so do the
  aged-file analysis and the process analysis when a later line revises the field.
\<close>

theorem marker_presence_counterexample:
  "isin ''DECISION: YES'' (upper high_risk_response)
   \<and> isin ''RISK: HIGH'' (upper high_risk_response)
   \<and> analyze_suspect_duplicate [] [downloads ''report.docx'', downloads ''report (1).docx'']
        (1 / 2) high_risk_response
      = Inr ((True, ''old backup''),
             [SuspectDuplicate [downloads ''report.docx'', downloads ''report (1).docx'']
                (1 / 2) True ''old backup''])
   \<and> isin ''DECISION: YES'' (upper revised_risk_response)
   \<and> isin ''RISK: HIGH'' (upper revised_risk_response)
   \<and> analyze_old_file report_fs [] (downloads ''report.docx'') 200 revised_risk_response
      = Inr ((True, ''x''), [OldFile (downloads ''report.docx'') 200 True ''LOW'' ''x''])
   \<and> isin ''DECISION: YES'' (upper revised_safety_response)
   \<and> isin ''SAFETY: DANGEROUS'' (upper revised_safety_response)
   \<and> analyze_process [] example_process revised_safety_response
      = Inr ((True, ''x''), [ProcessDecision ''updater.exe'' 4242 True ''SAFE'' ''x''])"
proof -
  have u: "isin ''DECISION: YES'' (upper high_risk_response)"
    "isin ''RISK: HIGH'' (upper high_risk_response)"
    "isin ''DECISION: YES'' (upper revised_risk_response)"
    "isin ''RISK: HIGH'' (upper revised_risk_response)"
    "isin ''DECISION: YES'' (upper revised_safety_response)"
    "isin ''SAFETY: DANGEROUS'' (upper revised_safety_response)"
    by (simp_all add: response_defs str_defs)
  have d: "analyze_suspect_duplicate [] [downloads ''report.docx'', downloads ''report (1).docx'']
        (1 / 2) high_risk_response
      = Inr ((True, ''old backup''),
             [SuspectDuplicate [downloads ''report.docx'', downloads ''report (1).docx'']
                (1 / 2) True ''old backup''])"
    by (simp add: analyze_suspect_duplicate_def high_risk_response_def str_defs)
  show ?thesis
    using u d by (simp add: example_old_file example_process_analysis)
qed

section \<open>Properties of the scans\<close>

lemmas cfg_defs = example_config_def users_ana_def WHITELISTED_DIRS_def TARGET_DIRS_def c_drive_def
  EXTENSIONS_TEMP_def EXTENSIONS_COMPRESSED_def is_in_whitelist_def relative_to_def rglob_def

text \<open>
  Claim C5, evaluated where the code departs from it. \<open>old.zip\<close> in \<open>Downloads\<close> resolves
  into \<open>C:/Program Files\<close>, so the whitelist predicate holds of it. The scan for
  temporary files skips it, but the scan for compressed files never asks the predicate:
  the file is 40 days old, is selected, and \<open>general_cleanup\<close> moves it to quarantine.
\<close>

theorem compressed_scan_whitelisted:
  "is_in_whitelist example_config linked_fs (downloads ''old.zip'')
   \<and> temp_dirs example_config linked_fs (TARGET_DIRS example_config) [] = []
   \<and> compressed_dirs linked_fs (40 * 86400)
        [child (home example_config) ''Downloads'', child (home example_config) ''Desktop''] []
       = Inr [downloads ''old.zip'']
   \<and> general_cleanup example_config new_executor new_logger linked_fs (40 * 86400) ''y''
       = Inr (new_executor\<lparr>files_deleted := 1, space_freed_mb := 3 / (1024 * 1024)\<rparr>,
              new_logger\<lparr>actions :=
                [\<lparr>a_type = ''delete'', a_file = downloads ''old.zip'',
                  a_details = \<lparr>d_reason = ''old compressed file'',
                               d_size_mb = Some (round2 (3 / (1024 * 1024))), d_pid = None\<rparr>,
                  a_timestamp = 40 * 86400, a_quarantine = Some (quarantined ''old.zip''),
                  a_status = Some ''moved to quarantine'', a_error = None\<rparr>]\<rparr>,
              linked_fs\<lparr>entries := [(quarantined ''old.zip'', plain_node [1, 2, 3] 0)]\<rparr>)"
proof -
  have w: "is_in_whitelist example_config linked_fs (downloads ''old.zip'')"
    by (simp add: cfg_defs linked_fs_def downloads_def child_def)
  have t: "temp_dirs example_config linked_fs (TARGET_DIRS example_config) [] = []"
    by (simp add: cfg_defs linked_fs_def downloads_def child_def fs_defs suffix_def
        suffix_of_def name_def lower_def lower_chr_def)
  have c: "compressed_dirs linked_fs (40 * 86400)
        [child (home example_config) ''Downloads'', child (home example_config) ''Desktop''] []
       = Inr [downloads ''old.zip'']"
    by (simp add: cfg_defs linked_fs_def downloads_def child_def fs_defs suffix_def
        suffix_of_def name_def lower_def lower_chr_def plain_node_def)
  have d: "delete_batch new_executor new_logger linked_fs (40 * 86400) [downloads ''old.zip'']
             ''old compressed file''
     = (new_executor\<lparr>files_deleted := 1, space_freed_mb := 3 / (1024 * 1024)\<rparr>,
        new_logger\<lparr>actions :=
          [\<lparr>a_type = ''delete'', a_file = downloads ''old.zip'',
            a_details = \<lparr>d_reason = ''old compressed file'',
                         d_size_mb = Some (round2 (3 / (1024 * 1024))), d_pid = None\<rparr>,
            a_timestamp = 40 * 86400, a_quarantine = Some (quarantined ''old.zip''),
            a_status = Some ''moved to quarantine'', a_error = None\<rparr>]\<rparr>,
        linked_fs\<lparr>entries := [(quarantined ''old.zip'', plain_node [1, 2, 3] 0)]\<rparr>)"
    by (simp add: delete_file_def new_executor_def new_logger_def linked_fs_def downloads_def
        quarantined_def plain_node_def fs_defs move_defs name_def Let_def)
  have s: "lower (strip ''y'') \<noteq> ''n''"
    by (simp add: strip_def is_space_def lower_def lower_chr_def)
  show ?thesis
    using w t c d s by (simp add: general_cleanup_def)
qed

section \<open>Properties of the duplicate pipeline\<close>

text \<open>Every group that the pipeline emits is one of the two records it builds, over
  files of the size buckets of phase 1.\<close>

lemma bucket_files_Nil: "bucket_files [] = {}"
  by (simp add: bucket_files_def)

lemma bucket_files_Cons: "bucket_files ((k, vs) # m) = set vs \<union> bucket_files m"
  by (simp add: bucket_files_def)

lemma bucket_files_dd_append: "bucket_files (dd_append m k v) = insert v (bucket_files m)"
  by (induction m k v rule: dd_append.induct) (auto simp: bucket_files_Nil bucket_files_Cons)

lemma full_hash_files_files:
  "full_hash_files md5 fs files (c, hm) = (c', hm') \<Longrightarrow> bucket_files hm' \<subseteq> bucket_files hm \<union> set files"
proof (induction files arbitrary: c hm)
  case Nil
  then show ?case by simp
next
  case (Cons f rest)
  obtain r c1 where fh: "full_hash md5 fs c f = (r, c1)"
    by (cases "full_hash md5 fs c f")
  show ?case
  proof (cases r)
    case (Inl e)
    with Cons.prems fh have "full_hash_files md5 fs rest (c1, hm) = (c', hm')" by simp
    from Cons.IH [OF this] show ?thesis by auto
  next
    case (Inr h)
    with Cons.prems fh have "full_hash_files md5 fs rest (c1, dd_append hm h f) = (c', hm')" by simp
    from Cons.IH [OF this] show ?thesis by (auto simp: bucket_files_dd_append)
  qed
qed

lemma fast_hash_files_files:
  "bucket_files (fast_hash_files md5 fs files hm) \<subseteq> bucket_files hm \<union> set files"
proof (induction files arbitrary: hm)
  case Nil
  then show ?case by simp
next
  case (Cons f rest)
  show ?case
  proof (cases "fast_hash md5 fs f")
    case (Inl e)
    then show ?thesis using Cons.IH [of hm] by auto
  next
    case (Inr h)
    then show ?thesis using Cons.IH [of "dd_append hm h f"] by (auto simp: bucket_files_dd_append)
  qed
qed

lemma confirmed_groups_shaped:
  "bucket_files hm \<subseteq> F \<Longrightarrow> g \<in> set (confirmed_groups hm mb) \<Longrightarrow> shaped F g"
  by (fastforce simp: confirmed_groups_def shaped_def bucket_files_def)

lemma candidates_loop_shaped:
  "bucket_files clusters \<subseteq> F
   \<Longrightarrow> \<forall>g \<in> set (dup_confirmed st) \<union> set (dup_suspect st). shaped F g
   \<Longrightarrow> \<forall>g \<in> set (dup_confirmed (candidates_loop md5 score fs mb clusters st))
            \<union> set (dup_suspect (candidates_loop md5 score fs mb clusters st)). shaped F g"
proof (induction clusters arbitrary: st)
  case Nil
  then show ?case by simp
next
  case (Cons cl rest)
  obtain fh candidates where cl: "cl = (fh, candidates)" by (cases cl)
  have sub: "set candidates \<subseteq> F" "bucket_files rest \<subseteq> F"
    using Cons.prems(1) cl by (auto simp: bucket_files_Cons)
  show ?case
  proof (cases "length candidates < 2")
    case True
    then show ?thesis using Cons.IH [OF sub(2) Cons.prems(2)] cl by simp
  next
    case False
    show ?thesis
    proof (cases "score fs candidates \<ge> ACCURACY_DUP")
      case True
      obtain c' hm' where fh': "full_hash_files md5 fs candidates (hash_cache st, []) = (c', hm')"
        by (cases "full_hash_files md5 fs candidates (hash_cache st, [])")
      have "bucket_files hm' \<subseteq> F"
        using full_hash_files_files [OF fh'] sub(1) by (auto simp: bucket_files_Nil)
      then have new: "\<forall>g \<in> set (confirmed_groups hm' mb). shaped F g"
        using confirmed_groups_shaped by blast
      let ?st = "st\<lparr>hash_cache := c', dup_confirmed := dup_confirmed st @ confirmed_groups hm' mb\<rparr>"
      have "\<forall>g \<in> set (dup_confirmed ?st) \<union> set (dup_suspect ?st). shaped F g"
        using Cons.prems(2) new by auto
      from Cons.IH [OF sub(2) this] show ?thesis
        using cl False True fh' by (simp add: Let_def)
    next
      case low: False
      let ?acc = "score fs candidates"
      let ?st = "st\<lparr>dup_suspect := dup_suspect st @ [suspect_group candidates mb ?acc]\<rparr>"
      have "shaped F (suspect_group candidates mb ?acc)"
        using sub(1) by (auto simp: shaped_def)
      then have "\<forall>g \<in> set (dup_confirmed ?st) \<union> set (dup_suspect ?st). shaped F g"
        using Cons.prems(2) by auto
      from Cons.IH [OF sub(2) this] show ?thesis
        using cl False low by (simp add: Let_def)
    qed
  qed
qed

lemma size_bucket_shaped:
  assumes "set files \<subseteq> F"
    and "\<forall>g \<in> set (dup_confirmed st) \<union> set (dup_suspect st). shaped F g"
  shows "\<forall>g \<in> set (dup_confirmed (size_bucket md5 score fs (len, files) st))
            \<union> set (dup_suspect (size_bucket md5 score fs (len, files) st)). shaped F g"
proof (cases "length files < 2")
  case True
  then show ?thesis using assms(2) by (simp add: size_bucket_def)
next
  case False
  let ?mb = "of_nat len / (1024 * 1024) :: rat"
  show ?thesis
  proof (cases "?mb \<le> MIN_DUP_FILE_SIZE_MB")
    case True
    obtain c' hm' where fh': "full_hash_files md5 fs files (hash_cache st, []) = (c', hm')"
      by (cases "full_hash_files md5 fs files (hash_cache st, [])")
    have "bucket_files hm' \<subseteq> F"
      using full_hash_files_files [OF fh'] assms(1) by (auto simp: bucket_files_Nil)
    then have "\<forall>g \<in> set (confirmed_groups hm' ?mb). shaped F g"
      using confirmed_groups_shaped by blast
    then show ?thesis
      using assms(2) False True fh' by (auto simp: size_bucket_def Let_def)
  next
    case large: False
    have "bucket_files (fast_hash_files md5 fs files []) \<subseteq> F"
      using fast_hash_files_files [of md5 fs files "[]"] assms(1) by (auto simp: bucket_files_Nil)
    from candidates_loop_shaped [OF this assms(2)] show ?thesis
      using False large by (simp add: size_bucket_def Let_def)
  qed
qed

lemma size_buckets_shaped:
  "bucket_files buckets \<subseteq> F
   \<Longrightarrow> \<forall>g \<in> set (dup_confirmed st) \<union> set (dup_suspect st). shaped F g
   \<Longrightarrow> \<forall>g \<in> set (dup_confirmed (size_buckets md5 score fs buckets st))
            \<union> set (dup_suspect (size_buckets md5 score fs buckets st)). shaped F g"
proof (induction buckets arbitrary: st)
  case Nil
  then show ?case by simp
next
  case (Cons b rest)
  obtain len files where b: "b = (len, files)" by (cases b)
  have sub: "set files \<subseteq> F" "bucket_files rest \<subseteq> F"
    using Cons.prems(1) b by (auto simp: bucket_files_Cons)
  from Cons.IH [OF sub(2) size_bucket_shaped [OF sub(1) Cons.prems(2)]]
  show ?case using b by simp
qed

lemma find_dup_scored_shaped:
  "g \<in> set (dup_confirmed (find_dup_scored md5 score cfg fs cache dirs))
       \<union> set (dup_suspect (find_dup_scored md5 score cfg fs cache dirs))
   \<Longrightarrow> shaped (bucket_files (size_dirs cfg fs dirs [])) g"
  using size_buckets_shaped [of "size_dirs cfg fs dirs []" "bucket_files (size_dirs cfg fs dirs [])"
      "\<lparr>hash_cache = cache, dup_confirmed = [], dup_suspect = []\<rparr>" md5 score fs]
  by (simp add: find_dup_scored_def)

lemma find_dup_shaped:
  "g \<in> set (dup_confirmed (find_dup md5 cfg fs cache dirs))
       \<union> set (dup_suspect (find_dup md5 cfg fs cache dirs))
   \<Longrightarrow> shaped (bucket_files (size_dirs cfg fs dirs [])) g"
  unfolding find_dup_def by (rule find_dup_scored_shaped)

lemma shaped_keys:
  "shaped F g \<Longrightarrow> map fst g = [''files'', ''length_mb'', ''accuracy'', ''type'']"
  by (auto simp: shaped_def confirmed_group_def suspect_group_def)

lemma shaped_getitem:
  "shaped F g \<Longrightarrow> getitem g ''size_mb'' = Inl (KeyError ''size_mb'')
     \<and> getitem g ''confidence'' = Inl (KeyError ''confidence'')
     \<and> (\<exists>fl. getitem g ''files'' = Inr (VFiles fl) \<and> group_files g = fl \<and> set fl \<subseteq> F)"
  by (auto simp: shaped_def confirmed_group_def suspect_group_def getitem_def group_files_def)

lemmas scan_defs = find_dup_def find_dup_scored_def size_bucket_def confirmed_groups_def confirmed_group_def
  suspect_group_def full_hash_def MIN_DUP_FILE_SIZE_MB_def ACCURACY_DUP_def

lemma report_dups:
  "find_dup example_md5 example_config report_fs Map.empty (TARGET_DIRS example_config)
   = \<lparr>hash_cache = [downloads ''report.docx'' \<mapsto> example_md5 [1, 2, 3],
                    downloads ''report (1).docx'' \<mapsto> example_md5 [1, 2, 3]],
      dup_confirmed = [confirmed_group [downloads ''report.docx'', downloads ''report (1).docx'']
                         (3 / (1024 * 1024))],
      dup_suspect = []\<rparr>"
  by (simp add: scan_defs cfg_defs fs_defs report_fs_def downloads_def child_def plain_node_def
      read_file_def Let_def)

lemma big_score:
  "calculate_accuracy_fuzzy example_md5 big_fs [downloads ''holiday.mkv'', downloads ''backup.iso'']
     = 2 / 10"
  by (simp add: calculate_accuracy_fuzzy_def pair_score_def score_extension_def score_name_def
      score_date_def score_fast_hash_def suffix_def stem_def suffix_of_def stem_of_def lower_def
      lower_chr_def name_similarity_def split_ws_def is_space_def match_at_def match_paren_def
      match_trailing_def is_digit_def big_fs_def downloads_def plain_node_def name_def stat_def
      lookup_def fast_hash_def read_file_def Let_def)

lemma big_dups:
  "find_dup example_md5 example_config big_fs Map.empty (TARGET_DIRS example_config)
   = \<lparr>hash_cache = Map.empty,
      dup_confirmed = [],
      dup_suspect = [suspect_group [downloads ''holiday.mkv'', downloads ''backup.iso'']
                       (52428801 / (1024 * 1024)) (2 / 10)]\<rparr>"
proof -
  have b: "size_dirs example_config big_fs (TARGET_DIRS example_config) []
            = [(52428801, [downloads ''holiday.mkv'', downloads ''backup.iso''])]"
    by (simp add: cfg_defs fs_defs big_fs_def downloads_def child_def plain_node_def)
  have f: "fast_hash_files example_md5 big_fs [downloads ''holiday.mkv'', downloads ''backup.iso''] []
            = [(example_md5 (replicate 8192 0),
                [downloads ''holiday.mkv'', downloads ''backup.iso''])]"
    by (simp add: fast_hash_def read_file_def lookup_def big_fs_def downloads_def plain_node_def)
  show ?thesis
    using b f big_score by (simp add: scan_defs)
qed

lemma empty_dups:
  "find_dup example_md5 example_config empty_fs Map.empty (TARGET_DIRS example_config)
   = \<lparr>hash_cache = Map.empty, dup_confirmed = [], dup_suspect = []\<rparr>"
  by (simp add: scan_defs cfg_defs fs_defs empty_fs_def downloads_def child_def plain_node_def)

lemma confirmed_loop_shaped:
  "shaped F g \<Longrightarrow> confirmed_loop w now (g # rest) = Inl (KeyError ''size_mb'')"
  using shaped_getitem [of F g] by auto

lemma suspect_loop_shaped:
  "shaped F g \<Longrightarrow> suspect_loop consult w now (g # rest) = Inl (KeyError ''confidence'')"
  using shaped_getitem [of F g] by auto

lemma deep_cleanup_duplicates_confirmed:
  assumes "\<forall>g \<in> set (dup_confirmed r) \<union> set (dup_suspect r). shaped F g"
    and "dup_confirmed r \<noteq> []"
  shows "deep_cleanup_duplicates llm_available consult w now r = Inl (KeyError ''size_mb'')"
proof -
  obtain g rest where gr: "dup_confirmed r = g # rest"
    using assms(2) by (cases "dup_confirmed r") auto
  then have "shaped F g" using assms(1) by simp
  then show ?thesis
    using gr confirmed_loop_shaped [of F g w now rest]
    by (simp add: deep_cleanup_duplicates_def)
qed

lemma deep_cleanup_duplicates_suspect:
  assumes "\<forall>g \<in> set (dup_confirmed r) \<union> set (dup_suspect r). shaped F g"
    and "dup_confirmed r = []" and "dup_suspect r \<noteq> []"
  shows "deep_cleanup_duplicates True consult w now r = Inl (KeyError ''confidence'')"
proof -
  obtain g rest where gr: "dup_suspect r = g # rest"
    using assms(3) by (cases "dup_suspect r") auto
  then have "shaped F g" using assms(1) by simp
  then show ?thesis
    using gr assms(2) suspect_loop_shaped [of F g consult w now rest]
    by (simp add: deep_cleanup_duplicates_def)
qed

text \<open>Without the classifier, steps 4b and 5 raise nothing, and step 6 always raises.\<close>

lemma deep_cleanup_duplicates_ignored:
  "dup_confirmed r = [] \<Longrightarrow> deep_cleanup_duplicates False consult w now r = Inr w"
  by (simp add: deep_cleanup_duplicates_def)

lemma deep_cleanup_unused_basic:
  "\<exists>w'. deep_cleanup_unused False consult_old cfg w now = Inr w'"
  by (simp add: deep_cleanup_unused_def Let_def)

lemma final_checkup: "getitem diagnose ''snapshot'' = Inl (KeyError ''snapshot'')"
  by (simp add: getitem_def diagnose_def)

text \<open>
  Claim C9, as the code has it. Every group record that \<open>find_dup\<close> emits, confirmed or
  suspect, has exactly the keys \<open>files\<close>, \<open>length_mb\<close>, \<open>accuracy\<close> and \<open>type\<close>.
  Consequently \<open>deep_cleanup\<close> raises \<open>KeyError\<close> whenever its duplicate scan returns at
  least one group: \<open>KeyError('size_mb')\<close> on the first confirmed group whenever there is
  one, and \<open>KeyError('confidence')\<close> on the first suspect group when there is no
  confirmed group and the classifier is available. With no confirmed group and no
  classifier the suspect groups are not indexed; steps 4 and 5 run to their end and the
  error is the \<open>KeyError('snapshot')\<close> of step 6.
\<close>

theorem find_dup_group_keys:
  assumes gc: "general_cleanup cfg (w_executor w) (w_logger w) (w_fs w) now response
                 = Inr (ex1, lg1, fs1)"
    and r: "r = find_dup_scored md5 score cfg fs1 cache (TARGET_DIRS cfg)"
    and run: "run = deep_cleanup md5 score llm_available consult consult_old cfg cache w now
                      response"
  shows "(\<forall>g \<in> set (dup_confirmed (find_dup_scored md5 score cfg fs cache0 dirs))
               \<union> set (dup_suspect (find_dup_scored md5 score cfg fs cache0 dirs)).
            map fst g = [''files'', ''length_mb'', ''accuracy'', ''type''])
     \<and> (dup_confirmed r \<noteq> [] \<longrightarrow> run = Inl (KeyError ''size_mb''))
     \<and> (dup_confirmed r = [] \<and> dup_suspect r \<noteq> [] \<and> llm_available
        \<longrightarrow> run = Inl (KeyError ''confidence''))
     \<and> (dup_confirmed r = [] \<and> \<not> llm_available \<longrightarrow> run = Inl (KeyError ''snapshot''))
     \<and> (dup_confirmed r \<noteq> [] \<or> dup_suspect r \<noteq> [] \<longrightarrow> (\<exists>k. run = Inl (KeyError k)))"
proof -
  let ?F = "bucket_files (size_dirs cfg fs1 (TARGET_DIRS cfg) [])"
  let ?w1 = "w\<lparr>w_executor := ex1, w_logger := lg1, w_fs := fs1\<rparr>"
  have keys: "\<forall>g \<in> set (dup_confirmed (find_dup_scored md5 score cfg fs cache0 dirs))
               \<union> set (dup_suspect (find_dup_scored md5 score cfg fs cache0 dirs)).
            map fst g = [''files'', ''length_mb'', ''accuracy'', ''type'']"
    using find_dup_scored_shaped shaped_keys by blast
  have sh: "\<forall>g \<in> set (dup_confirmed r) \<union> set (dup_suspect r). shaped ?F g"
    unfolding r using find_dup_scored_shaped by blast
  have unfold: "run =
      (case deep_cleanup_duplicates llm_available consult ?w1 now r of
         Inl e \<Rightarrow> Inl e
       | Inr w2 \<Rightarrow>
           (case deep_cleanup_unused llm_available consult_old cfg w2 now of
              Inl e \<Rightarrow> Inl e
            | Inr w3 \<Rightarrow> Inl (KeyError ''snapshot'')))"
    unfolding run r by (simp add: deep_cleanup_def gc final_checkup Let_def split: sum.splits)
  have c: "run = Inl (KeyError ''size_mb'')" if nz: "dup_confirmed r \<noteq> []"
    unfolding unfold
    using deep_cleanup_duplicates_confirmed [OF sh nz, of llm_available consult ?w1 now] by simp
  have s: "run = Inl (KeyError ''confidence'')"
    if ce: "dup_confirmed r = []" and nz: "dup_suspect r \<noteq> []" and av: "llm_available"
    unfolding unfold
    using deep_cleanup_duplicates_suspect [OF sh ce nz, of consult ?w1 now] av by simp
  have n: "run = Inl (KeyError ''snapshot'')" if ce: "dup_confirmed r = []" and na: "\<not> llm_available"
  proof -
    obtain w' where u: "deep_cleanup_unused False consult_old cfg ?w1 now = Inr w'"
      using deep_cleanup_unused_basic by blast
    show ?thesis
      unfolding unfold
      using deep_cleanup_duplicates_ignored [OF ce, of consult ?w1 now] na u by simp
  qed
  have any: "\<exists>k. run = Inl (KeyError k)" if "dup_confirmed r \<noteq> [] \<or> dup_suspect r \<noteq> []"
    using that c s n by (cases llm_available; cases "dup_confirmed r = []") auto
  show ?thesis
    using keys c s n any by (intro conjI impI) auto
qed

lemma report_general:
  "general_cleanup example_config new_executor new_logger report_fs 0 ''n''
     = Inr (new_executor, new_logger, report_fs)"
  by (simp add: general_cleanup_def cfg_defs fs_defs report_fs_def downloads_def child_def
      suffix_def suffix_of_def name_def lower_def lower_chr_def Let_def)

lemma big_general:
  "general_cleanup example_config new_executor new_logger big_fs 3456000 ''n''
     = Inr (new_executor, new_logger, big_fs)"
  by (simp add: general_cleanup_def cfg_defs fs_defs big_fs_def downloads_def child_def
      suffix_def suffix_of_def name_def lower_def lower_chr_def Let_def)

lemma empty_general:
  "general_cleanup example_config new_executor new_logger empty_fs 0 ''n''
     = Inr (new_executor, new_logger, empty_fs)"
  by (simp add: general_cleanup_def cfg_defs fs_defs empty_fs_def downloads_def child_def
      suffix_def suffix_of_def name_def lower_def lower_chr_def Let_def)

lemma big_unused:
  "unused_files example_config big_fs 3456000 (TARGET_DIRS example_config) = []"
  by (simp add: unused_files_def cfg_defs fs_defs big_fs_def downloads_def child_def
      plain_node_def DAYS_OLD_def Let_def)

lemma empty_unused:
  "unused_files example_config empty_fs 0 (TARGET_DIRS example_config) = []"
  by (simp add: unused_files_def cfg_defs fs_defs empty_fs_def downloads_def child_def
      plain_node_def DAYS_OLD_def Let_def)

theorem find_dup_group_keys_witness:
  "general_cleanup example_config new_executor new_logger report_fs 0 ''n''
     = Inr (new_executor, new_logger, report_fs)
   \<and> dup_confirmed (find_dup example_md5 example_config report_fs Map.empty (TARGET_DIRS example_config)) \<noteq> []
   \<and> deep_cleanup example_md5 (calculate_accuracy_fuzzy example_md5) True no_answer no_reply
        example_config Map.empty (example_world report_fs) 0 ''n''
       = Inl (KeyError ''size_mb'')
   \<and> general_cleanup example_config new_executor new_logger big_fs 3456000 ''n''
       = Inr (new_executor, new_logger, big_fs)
   \<and> dup_confirmed (find_dup example_md5 example_config big_fs Map.empty (TARGET_DIRS example_config)) = []
   \<and> dup_suspect (find_dup example_md5 example_config big_fs Map.empty (TARGET_DIRS example_config)) \<noteq> []
   \<and> deep_cleanup example_md5 (calculate_accuracy_fuzzy example_md5) True no_answer no_reply
        example_config Map.empty (example_world big_fs) 3456000 ''n''
       = Inl (KeyError ''confidence'')
   \<and> deep_cleanup example_md5 (calculate_accuracy_fuzzy example_md5) False no_answer no_reply
        example_config Map.empty (example_world big_fs) 3456000 ''n''
       = Inl (KeyError ''snapshot'')
   \<and> map (map fst) (dup_suspect (find_dup example_md5 example_config big_fs Map.empty (TARGET_DIRS example_config)))
       = [[''files'', ''length_mb'', ''accuracy'', ''type'']]"
proof -
  have g1: "general_cleanup example_config (w_executor (example_world report_fs))
              (w_logger (example_world report_fs)) (w_fs (example_world report_fs)) 0 ''n''
            = Inr (new_executor, new_logger, report_fs)"
    by (simp add: example_world_def report_general)
  have g2: "general_cleanup example_config (w_executor (example_world big_fs))
              (w_logger (example_world big_fs)) (w_fs (example_world big_fs)) 3456000 ''n''
            = Inr (new_executor, new_logger, big_fs)"
    by (simp add: example_world_def big_general)
  note t1 = find_dup_group_keys [where ?md5.0 = example_md5
      and score = "calculate_accuracy_fuzzy example_md5" and cache = Map.empty
      and llm_available = True and consult = no_answer and consult_old = no_reply
      and fs = big_fs and ?cache0.0 = Map.empty and dirs = "TARGET_DIRS example_config",
      OF g1 refl refl]
  note t2 = find_dup_group_keys [where ?md5.0 = example_md5
      and score = "calculate_accuracy_fuzzy example_md5" and cache = Map.empty
      and llm_available = True and consult = no_answer and consult_old = no_reply
      and fs = big_fs and ?cache0.0 = Map.empty and dirs = "TARGET_DIRS example_config",
      OF g2 refl refl]
  note t3 = find_dup_group_keys [where ?md5.0 = example_md5
      and score = "calculate_accuracy_fuzzy example_md5" and cache = Map.empty
      and llm_available = False and consult = no_answer and consult_old = no_reply
      and fs = big_fs and ?cache0.0 = Map.empty and dirs = "TARGET_DIRS example_config",
      OF g2 refl refl]
  show ?thesis
    using t1 t2 t3 unfolding find_dup_def [symmetric]
    by (simp add: report_dups big_dups report_general big_general)
qed

text \<open>
  The claim as stated has \<open>deep_cleanup\<close> index \<open>group['confidence']\<close> on every suspect
  group. With suspect groups only and the classifier unavailable it does not: indexing
  the suspect group that the scan returns would raise \<open>KeyError('confidence')\<close>, and the
  run raises \<open>KeyError('snapshot')\<close> at step 6 instead, as a run does whose scan returns
  no group at all.
\<close>

theorem suspect_not_indexed_counterexample:
  "dup_confirmed (find_dup example_md5 example_config big_fs Map.empty (TARGET_DIRS example_config)) = []
   \<and> dup_suspect (find_dup example_md5 example_config big_fs Map.empty (TARGET_DIRS example_config))
       = [suspect_group [downloads ''holiday.mkv'', downloads ''backup.iso'']
            (52428801 / (1024 * 1024)) (2 / 10)]
   \<and> getitem (suspect_group [downloads ''holiday.mkv'', downloads ''backup.iso'']
                 (52428801 / (1024 * 1024)) (2 / 10)) ''confidence''
       = Inl (KeyError ''confidence'')
   \<and> deep_cleanup example_md5 (calculate_accuracy_fuzzy example_md5) False no_answer no_reply
        example_config Map.empty (example_world big_fs) 3456000 ''n''
       = Inl (KeyError ''snapshot'')
   \<and> find_dup example_md5 example_config empty_fs Map.empty (TARGET_DIRS example_config)
       = \<lparr>hash_cache = Map.empty, dup_confirmed = [], dup_suspect = []\<rparr>
   \<and> deep_cleanup example_md5 (calculate_accuracy_fuzzy example_md5) False no_answer no_reply
        example_config Map.empty (example_world empty_fs) 0 ''n''
       = Inl (KeyError ''snapshot'')"
proof -
  have a: "deep_cleanup example_md5 (calculate_accuracy_fuzzy example_md5) False no_answer no_reply
        example_config Map.empty (example_world big_fs) 3456000 ''n''
       = Inl (KeyError ''snapshot'')"
    unfolding deep_cleanup_def find_dup_def [symmetric]
    by (simp add: example_world_def big_general big_dups deep_cleanup_duplicates_def
        deep_cleanup_unused_def big_unused final_checkup)
  have b: "deep_cleanup example_md5 (calculate_accuracy_fuzzy example_md5) False no_answer no_reply
        example_config Map.empty (example_world empty_fs) 0 ''n''
       = Inl (KeyError ''snapshot'')"
    unfolding deep_cleanup_def find_dup_def [symmetric]
    by (simp add: example_world_def empty_general empty_dups deep_cleanup_duplicates_def
        deep_cleanup_unused_def empty_unused final_checkup)
  have c: "getitem (suspect_group [downloads ''holiday.mkv'', downloads ''backup.iso'']
                 (52428801 / (1024 * 1024)) (2 / 10)) ''confidence''
       = Inl (KeyError ''confidence'')"
    by (simp add: getitem_def suspect_group_def)
  show ?thesis
    using a b c by (simp add: big_dups empty_dups)
qed

lemma size_files_positive:
  "bucket_files (size_files cfg fs files m)
     \<subseteq> bucket_files m \<union> {f. \<not> is_in_whitelist cfg fs f \<and> (\<exists>s. stat fs f = Inr s \<and> 0 < st_size s)}"
proof (induction files arbitrary: m)
  case Nil
  then show ?case by simp
next
  case (Cons f rest)
  show ?case
    using Cons.IH [of m] Cons.IH [of "dd_append m (st_size (projr (stat fs f))) f"]
    by (auto simp: bucket_files_dd_append split: sum.splits)
qed

lemma size_dirs_positive:
  "bucket_files (size_dirs cfg fs dirs m)
     \<subseteq> bucket_files m \<union> {f. \<not> is_in_whitelist cfg fs f \<and> (\<exists>s. stat fs f = Inr s \<and> 0 < st_size s)}"
proof (induction dirs arbitrary: m)
  case Nil
  then show ?case by simp
next
  case (Cons d rest)
  show ?case
    using Cons.IH [of m] Cons.IH [of "size_files cfg fs (rglob fs d) m"]
      size_files_positive [of cfg fs "rglob fs d" m]
    by auto
qed

text \<open>
  Claim C10. A file of 0 bytes is never added to a size bucket in phase 1, and so
  belongs to no group, confirmed or suspect, that \<open>find_dup\<close> reports.
\<close>

theorem empty_files_never_grouped:
  assumes "stat fs f = Inr s" and "st_size s = 0"
  shows "f \<notin> bucket_files (size_dirs cfg fs dirs [])
         \<and> (\<forall>g \<in> set (dup_confirmed (find_dup md5 cfg fs cache dirs))
                  \<union> set (dup_suspect (find_dup md5 cfg fs cache dirs)).
               f \<notin> set (group_files g))"
proof -
  have nb: "f \<notin> bucket_files (size_dirs cfg fs dirs [])"
    using size_dirs_positive [of cfg fs dirs "[]"] assms by (auto simp: bucket_files_Nil)
  have "f \<notin> set (group_files g)"
    if "g \<in> set (dup_confirmed (find_dup md5 cfg fs cache dirs))
            \<union> set (dup_suspect (find_dup md5 cfg fs cache dirs))" for g
    using find_dup_shaped [OF that] shaped_getitem [of "bucket_files (size_dirs cfg fs dirs [])" g] nb
    by auto
  with nb show ?thesis by blast
qed

theorem empty_files_never_grouped_witness:
  "stat empty_fs (downloads ''a.txt'') = Inr \<lparr>st_size = 0, st_mtime = 0, st_atime = 0\<rparr>
   \<and> stat empty_fs (downloads ''b.txt'') = Inr \<lparr>st_size = 0, st_mtime = 0, st_atime = 0\<rparr>
   \<and> downloads ''a.txt'' \<notin> bucket_files (size_dirs example_config empty_fs (TARGET_DIRS example_config) [])
   \<and> downloads ''b.txt'' \<notin> bucket_files (size_dirs example_config empty_fs (TARGET_DIRS example_config) [])
   \<and> find_dup example_md5 example_config empty_fs Map.empty (TARGET_DIRS example_config)
       = \<lparr>hash_cache = Map.empty, dup_confirmed = [], dup_suspect = []\<rparr>"
  using empty_files_never_grouped [of empty_fs "downloads ''a.txt''" "\<lparr>st_size = 0, st_mtime = 0, st_atime = 0\<rparr>"
      example_config "TARGET_DIRS example_config" example_md5 Map.empty]
    empty_files_never_grouped [of empty_fs "downloads ''b.txt''" "\<lparr>st_size = 0, st_mtime = 0, st_atime = 0\<rparr>"
      example_config "TARGET_DIRS example_config" example_md5 Map.empty]
  by (simp add: empty_dups) (simp add: empty_fs_def downloads_def plain_node_def stat_def lookup_def)

section \<open>The recovery round trip\<close>




















section \<open>Identical files and the groups of the pipeline\<close>





























section \<open>The scans that consult the whitelist\<close>

lemma temp_in_not_whitelisted:
  "\<forall>f \<in> set acc. \<not> is_in_whitelist cfg fs f
     \<Longrightarrow> \<forall>f \<in> set (temp_in cfg fs files acc). \<not> is_in_whitelist cfg fs f"
proof (induction files arbitrary: acc)
  case Nil
  then show ?case by simp
next
  case (Cons a rest)
  show ?case
  proof (cases "is_file fs a \<and> \<not> is_in_whitelist cfg fs a \<and> lower (suffix a) \<in> set EXTENSIONS_TEMP")
    case True
    have "\<forall>f \<in> set (acc @ [a]). \<not> is_in_whitelist cfg fs f"
      using Cons.prems True by auto
    from Cons.IH [OF this] show ?thesis using True by simp
  next
    case False
    then show ?thesis using Cons.IH [OF Cons.prems] by auto
  qed
qed

lemma temp_dirs_not_whitelisted:
  "\<forall>f \<in> set acc. \<not> is_in_whitelist cfg fs f
     \<Longrightarrow> \<forall>f \<in> set (temp_dirs cfg fs dirs acc). \<not> is_in_whitelist cfg fs f"
  by (induction dirs arbitrary: acc) (auto dest: temp_in_not_whitelisted)

lemma unused_in_not_whitelisted:
  "\<forall>u \<in> set acc. \<not> is_in_whitelist cfg fs (u_file u)
     \<Longrightarrow> \<forall>u \<in> set (unused_in cfg fs now files acc). \<not> is_in_whitelist cfg fs (u_file u)"
proof (induction files arbitrary: acc)
  case Nil
  then show ?case by simp
next
  case (Cons a rest)
  note keep = Cons.IH [OF Cons.prems]
  have add: "\<forall>u \<in> set (unused_in cfg fs now rest (acc @ [item])).
               \<not> is_in_whitelist cfg fs (u_file u)"
    if "\<not> is_in_whitelist cfg fs (u_file item)" for item
  proof -
    have "\<forall>u \<in> set (acc @ [item]). \<not> is_in_whitelist cfg fs (u_file u)"
      using Cons.prems that by auto
    from Cons.IH [OF this] show ?thesis .
  qed
  show ?case
  proof (cases "is_file fs a \<and> \<not> is_in_whitelist cfg fs a")
    case True
    show ?thesis
    proof (cases "stat fs a")
      case (Inl e)
      then show ?thesis using True keep by simp
    next
      case (Inr s)
      let ?item = "\<lparr>u_file = a,
                     u_days_unused = \<lfloor>(now - max (st_atime s) (st_mtime s)) / (24 * 3600)\<rfloor>,
                     u_size_mb = of_nat (st_size s) / (1024 * 1024)\<rparr>"
      have "\<not> is_in_whitelist cfg fs (u_file ?item)" using True by simp
      from add [OF this] show ?thesis using Inr True keep by (simp add: Let_def)
    qed
  next
    case False
    then show ?thesis using keep by auto
  qed
qed

lemma unused_dirs_not_whitelisted:
  "\<forall>u \<in> set acc. \<not> is_in_whitelist cfg fs (u_file u)
     \<Longrightarrow> \<forall>u \<in> set (unused_dirs cfg fs now dirs acc). \<not> is_in_whitelist cfg fs (u_file u)"
  by (induction dirs arbitrary: acc) (auto dest: unused_in_not_whitelisted)

text \<open>The scan for temporary files, the scan for unused files and phase 1 of the
  duplicate scan select no path of which the whitelist predicate holds.\<close>

lemma scans_skip_whitelisted:
  "(\<forall>f \<in> set (temp_dirs cfg fs dirs []). \<not> is_in_whitelist cfg fs f)
   \<and> (\<forall>u \<in> set (unused_files cfg fs now dirs). \<not> is_in_whitelist cfg fs (u_file u))
   \<and> (\<forall>f \<in> bucket_files (size_dirs cfg fs dirs []). \<not> is_in_whitelist cfg fs f)"
  using temp_dirs_not_whitelisted [of "[]" cfg fs dirs]
    unused_dirs_not_whitelisted [of "[]" cfg fs now dirs]
    size_dirs_positive [of cfg fs dirs "[]"]
  by (auto simp: unused_files_def bucket_files_Nil)

end
